theory Spec2Isabelle
  imports Complex_Main
begin

section \<open>Lakers timer: engine, countdown, stopwatch and time formatter\<close>

text \<open>
  A shallow embedding of \<^verbatim>\<open>timer-engine.js\<close>, \<^verbatim>\<open>countdown-timer.js\<close>, the stopwatch
  component and \<^verbatim>\<open>time-formatter.js\<close>.

  JavaScript numbers that hold times are taken as integers (whole milliseconds, type
  \<open>int\<close>); on integers below \<open>2^53\<close> the double arithmetic of the source is exact
  and agrees with \<open>int\<close>. Fractional numbers are outside the model. \<^verbatim>\<open>NaN\<close> and the
  infinities are values of the model where a caller chooses the argument, in
  \<^verbatim>\<open>TimeFormatter.formatTime\<close>; the times of the engine are integers. Strings are lists
  of 8-bit characters.

  Mutation is explicit state passing. The browser is a record \<open>Host\<close>: the monotonic
  clock read by \<^verbatim>\<open>performance.now()\<close>, the wall clock read by \<^verbatim>\<open>new Date()\<close>, and the
  animation-frame callbacks that are requested and not yet run or cancelled. Every
  operation returns the events it passes to \<^verbatim>\<open>emit\<close>, in order. A thrown \<^verbatim>\<open>Error\<close> is
  the \<open>Inl\<close> branch of a sum.
\<close>

subsection \<open>Constants (types.js)\<close>

definition MAX_DURATION :: int where
  "MAX_DURATION = 24 * 60 * 60 * 1000"

definition UPDATE_INTERVAL :: int where
  "UPDATE_INTERVAL = 100"

definition LEBRON_MILESTONES :: "int list" where
  "LEBRON_MILESTONES = [6, 12, 18, 23, 30, 46, 60]"

subsection \<open>The host: clocks and animation frames\<close>

record Host =
  clock :: int
  date :: int
  frames :: "nat list"
  nextHandle :: nat

definition requestAnimationFrame :: "Host \<Rightarrow> Host \<times> nat" where
  "requestAnimationFrame h =
     (h\<lparr>frames := frames h @ [nextHandle h], nextHandle := nextHandle h + 1\<rparr>, nextHandle h)"

definition cancelAnimationFrame :: "nat \<Rightarrow> Host \<Rightarrow> Host" where
  "cancelAnimationFrame i h = h\<lparr>frames := removeAll i (frames h)\<rparr>"

subsection \<open>Timer state, events, listeners\<close>

datatype Mode = Countdown | Stopwatch

fun modeOfString :: "string \<Rightarrow> Mode option" where
  "modeOfString s =
     (if s = ''countdown'' then Some Countdown
      else if s = ''stopwatch'' then Some Stopwatch
      else None)"

record TimerState =
  mode :: Mode
  isRunning :: bool
  isPaused :: bool
  currentTime :: int
  targetTime :: int
  startTime :: int

text \<open>
  The payloads of the events, in the order of the fields of the object literals:
  tick \<open>{mode, currentTime, targetTime, isRunning, progress}\<close>, complete
  \<open>{mode, finalTime}\<close>, start \<open>{mode, currentTime, targetTime}\<close>, pause and resume
  \<open>{currentTime, mode}\<close>, reset \<open>{mode, currentTime, wasRunning}\<close>, modeChanged
  \<open>{mode, wasRunning}\<close>, targetTimeChanged \<open>{targetTime}\<close>, error \<open>{message}\<close>,
  maxDurationReached \<open>{mode, maxTime}\<close>, destroyed (no payload).
\<close>

datatype Event =
    EvTick Mode int int bool rat
  | EvComplete Mode int
  | EvStart Mode int int
  | EvPause int Mode
  | EvResume int Mode
  | EvReset Mode int bool
  | EvModeChanged Mode bool
  | EvTargetTimeChanged int
  | EvError string
  | EvMaxDurationReached Mode int
  | EvDestroyed

fun eventName :: "Event \<Rightarrow> string" where
  "eventName (EvTick m c t r p) = ''tick''"
| "eventName (EvComplete m f) = ''complete''"
| "eventName (EvStart m c t) = ''start''"
| "eventName (EvPause c m) = ''pause''"
| "eventName (EvResume c m) = ''resume''"
| "eventName (EvReset m c w) = ''reset''"
| "eventName (EvModeChanged m w) = ''modeChanged''"
| "eventName (EvTargetTimeChanged t) = ''targetTimeChanged''"
| "eventName (EvError msg) = ''error''"
| "eventName (EvMaxDurationReached m t) = ''maxDurationReached''"
| "eventName EvDestroyed = ''destroyed''"

text \<open>
  The callbacks that the components of this repository register with the engine, and any
  other callback (numbered).
\<close>

datatype Listener =
    CountdownOnTick
  | CountdownOnComplete
  | CountdownOnReset
  | StopwatchOnTick
  | StopwatchOnReset
  | External nat

datatype error =
    InvalidMode
  | TargetNegative
  | TargetExceedsMax
  | DurationNegative
  | DurationExceeds24h
  | SecondsNotBelow60
  | DurationZero
  | DurationExceedsMax
  | StartAtZero
  | LapAtZero
  | NotAString
  | FormatMinutesOrSeconds
  | FormatSeconds
  | FormatUnrecognised

subsection \<open>TimerEngine (timer-engine.js)\<close>

record TimerEngine =
  state :: TimerState
  animationFrameId :: "nat option"
  lastUpdateTime :: int
  eventListeners :: "string \<Rightarrow> Listener list"

type_synonym World = "Host \<times> TimerEngine"

definition newTimerEngine :: TimerEngine where
  "newTimerEngine =
     \<lparr>state = \<lparr>mode = Countdown, isRunning = False, isPaused = False, currentTime = 0,
               targetTime = 5 * 60 * 1000, startTime = 0\<rparr>,
      animationFrameId = None,
      lastUpdateTime = 0,
      eventListeners = (\<lambda>name. [])\<rparr>"

definition addEventListener :: "string \<Rightarrow> Listener \<Rightarrow> TimerEngine \<Rightarrow> TimerEngine" where
  "addEventListener name cb e =
     e\<lparr>eventListeners := (eventListeners e)(name := eventListeners e name @ [cb])\<rparr>"

definition removeEventListener :: "string \<Rightarrow> Listener \<Rightarrow> TimerEngine \<Rightarrow> TimerEngine" where
  "removeEventListener name cb e =
     e\<lparr>eventListeners := (eventListeners e)(name := remove1 cb (eventListeners e name))\<rparr>"

text \<open>
  The block \<^verbatim>\<open>if (this.animationFrameId) { cancelAnimationFrame(...); ... = null; }\<close>.
  A handle is truthy when it is not zero.
\<close>

fun cancelFrame :: "World \<Rightarrow> World" where
  "cancelFrame (h, e) =
     (case animationFrameId e of
        None \<Rightarrow> (h, e)
      | Some i \<Rightarrow>
          if i = 0 then (h, e)
          else (cancelAnimationFrame i h, e\<lparr>animationFrameId := None\<rparr>))"

text \<open>\<^verbatim>\<open>this.animationFrameId = requestAnimationFrame(this.update)\<close>\<close>

fun scheduleUpdate :: "World \<Rightarrow> World" where
  "scheduleUpdate (h, e) =
     (let (h1, i) = requestAnimationFrame h
      in (h1, e\<lparr>animationFrameId := Some i\<rparr>))"

fun setTargetTime :: "int \<Rightarrow> World \<Rightarrow> error + World \<times> Event list" where
  "setTargetTime milliseconds (h, e) =
     (if milliseconds < 0 then Inl TargetNegative
      else if milliseconds > MAX_DURATION then Inl TargetExceedsMax
      else
        let e1 = e\<lparr>state := (state e)\<lparr>targetTime := milliseconds\<rparr>\<rparr>;
            e2 = (if mode (state e1) = Countdown
                  then e1\<lparr>state := (state e1)\<lparr>currentTime := milliseconds\<rparr>\<rparr>
                  else e1)
        in Inr ((h, e2), [EvTargetTimeChanged milliseconds]))"

fun start :: "World \<Rightarrow> World \<times> Event list" where
  "start (h, e) =
     (if isRunning (state e) then ((h, e), [])
      else if mode (state e) = Countdown \<and> currentTime (state e) \<le> 0
      then ((h, e), [EvError ''Cannot start countdown with zero time''])
      else
        let e1 = e\<lparr>state := (state e)\<lparr>isRunning := True, isPaused := False,
                                       startTime := clock h\<rparr>\<rparr>;
            e2 = e1\<lparr>lastUpdateTime := startTime (state e1)\<rparr>;
            (h3, e3) = scheduleUpdate (h, e2)
        in ((h3, e3),
            [EvStart (mode (state e3)) (currentTime (state e3)) (targetTime (state e3))]))"

fun pause :: "World \<Rightarrow> World \<times> Event list" where
  "pause (h, e) =
     (if \<not> isRunning (state e) \<or> isPaused (state e) then ((h, e), [])
      else
        let e1 = e\<lparr>state := (state e)\<lparr>isPaused := True, isRunning := False\<rparr>\<rparr>;
            (h2, e2) = cancelFrame (h, e1)
        in ((h2, e2), [EvPause (currentTime (state e2)) (mode (state e2))]))"

fun resume :: "World \<Rightarrow> World \<times> Event list" where
  "resume (h, e) =
     (if \<not> isPaused (state e) then ((h, e), [])
      else
        let e1 = e\<lparr>state := (state e)\<lparr>isRunning := True, isPaused := False\<rparr>\<rparr>;
            e2 = e1\<lparr>lastUpdateTime := clock h\<rparr>;
            (h3, e3) = scheduleUpdate (h, e2)
        in ((h3, e3), [EvResume (currentTime (state e3)) (mode (state e3))]))"

text \<open>
  \<^verbatim>\<open>this.state.targetTime || 0\<close> is the target time unless it is falsy, which for an
  integer means zero.
\<close>

fun reset :: "World \<Rightarrow> World \<times> Event list" where
  "reset (h, e) =
     (let wasRunning = isRunning (state e);
          e1 = e\<lparr>state := (state e)\<lparr>isRunning := False, isPaused := False\<rparr>\<rparr>;
          (h2, e2) = cancelFrame (h, e1);
          e3 = (if mode (state e2) = Countdown
                then e2\<lparr>state := (state e2)\<lparr>currentTime :=
                       (if targetTime (state e2) \<noteq> 0 then targetTime (state e2) else 0)\<rparr>\<rparr>
                else e2\<lparr>state := (state e2)\<lparr>currentTime := 0\<rparr>\<rparr>)
      in ((h2, e3), [EvReset (mode (state e3)) (currentTime (state e3)) wasRunning]))"

fun setMode :: "string \<Rightarrow> World \<Rightarrow> error + World \<times> Event list" where
  "setMode m (h, e) =
     (case modeOfString m of
        None \<Rightarrow> Inl InvalidMode
      | Some md \<Rightarrow>
          let wasRunning = isRunning (state e);
              ((h1, e1), evs1) = (if wasRunning then pause (h, e) else ((h, e), []));
              e2 = e1\<lparr>state := (state e1)\<lparr>mode := md\<rparr>\<rparr>;
              ((h3, e3), evs3) = reset (h1, e2)
          in Inr ((h3, e3), evs1 @ evs3 @ [EvModeChanged md wasRunning]))"

definition getProgress :: "TimerEngine \<Rightarrow> rat" where
  "getProgress e =
     (if mode (state e) = Countdown \<and> targetTime (state e) > 0
      then max 0 (min 1 ((of_int (targetTime (state e)) - of_int (currentTime (state e)))
                          / of_int (targetTime (state e))))
      else if mode (state e) = Stopwatch
      then min 1 (of_int (currentTime (state e)) / of_int MAX_DURATION)
      else 0)"

text \<open>
  The end of \<^verbatim>\<open>update\<close> after an applied update that reached no boundary: the clock
  reference moves, the tick is emitted and the next frame is requested.
\<close>

fun tickAndContinue :: "int \<Rightarrow> World \<Rightarrow> World \<times> Event list" where
  "tickAndContinue now (h, e) =
     (let e1 = e\<lparr>lastUpdateTime := now\<rparr>;
          ev = EvTick (mode (state e1)) (currentTime (state e1)) (targetTime (state e1))
                 (isRunning (state e1)) (getProgress e1)
      in (scheduleUpdate (h, e1), [ev]))"

fun update :: "World \<Rightarrow> World \<times> Event list" where
  "update (h, e) =
     (if \<not> isRunning (state e) \<or> isPaused (state e) then ((h, e), [])
      else
        let now = clock h;
            deltaTime = now - lastUpdateTime e
        in
          if deltaTime \<ge> UPDATE_INTERVAL then
            (if mode (state e) = Countdown then
               let e1 = e\<lparr>state := (state e)\<lparr>currentTime :=
                            max 0 (currentTime (state e) - deltaTime)\<rparr>\<rparr>
               in
                 if currentTime (state e1) \<le> 0 then
                   let e2 = e1\<lparr>state := (state e1)\<lparr>currentTime := 0, isRunning := False\<rparr>\<rparr>;
                       (h3, e3) = cancelFrame (h, e2)
                   in ((h3, e3), [EvComplete (mode (state e3)) (currentTime (state e3))])
                 else tickAndContinue now (h, e1)
             else
               let e1 = e\<lparr>state := (state e)\<lparr>currentTime :=
                            currentTime (state e) + deltaTime\<rparr>\<rparr>
               in
                 if currentTime (state e1) \<ge> MAX_DURATION then
                   let e2 = e1\<lparr>state := (state e1)\<lparr>currentTime := MAX_DURATION\<rparr>\<rparr>;
                       ((h3, e3), evs) = pause (h, e2)
                   in ((h3, e3), evs @ [EvMaxDurationReached (mode (state e3)) MAX_DURATION])
                 else tickAndContinue now (h, e1))
          else (scheduleUpdate (h, e), []))"

fun destroy :: "World \<Rightarrow> World \<times> Event list" where
  "destroy (h, e) =
     (let (h1, e1) = cancelFrame (h, e);
          e2 = e1\<lparr>eventListeners := (\<lambda>name. [])\<rparr>;
          e3 = e2\<lparr>state := (state e2)\<lparr>isRunning := False, isPaused := False\<rparr>\<rparr>
      in ((h1, e3), [EvDestroyed]))"

text \<open>
  The host runs the oldest requested animation frame: the handle is no longer pending and
  the callback, which is always \<^verbatim>\<open>this.update\<close>, is called.
\<close>

fun runFrame :: "World \<Rightarrow> World \<times> Event list" where
  "runFrame (h, e) =
     (case frames h of
        [] \<Rightarrow> ((h, e), [])
      | i # rest \<Rightarrow> update (h\<lparr>frames := rest\<rparr>, e))"

text \<open>
  \<^verbatim>\<open>emit\<close> calls the callbacks registered under the event's name, in the order of
  registration, with the payload; an exception of a callback is caught.
\<close>

definition deliveries :: "TimerEngine \<Rightarrow> Event \<Rightarrow> (Listener \<times> Event) list" where
  "deliveries e ev = map (\<lambda>cb. (cb, ev)) (eventListeners e (eventName ev))"

subsection \<open>Sequences of engine operations\<close>

text \<open>
  A caller's operation on the engine (\<open>OpUpdate\<close> is a direct call of
  \<^verbatim>\<open>update\<close>), the host running a requested frame, or the passing of time. An
  operation that throws leaves the engine as it was (both throwing operations validate
  before they assign).
\<close>

datatype Op =
    OpSetMode string
  | OpSetTargetTime int
  | OpStart
  | OpPause
  | OpResume
  | OpReset
  | OpUpdate
  | OpDestroy
  | OpFrame
  | OpAdvance nat

fun applyOp :: "Op \<Rightarrow> World \<Rightarrow> World \<times> Event list" where
  "applyOp (OpSetMode m) w = (case setMode m w of Inl err \<Rightarrow> (w, []) | Inr r \<Rightarrow> r)"
| "applyOp (OpSetTargetTime t) w = (case setTargetTime t w of Inl err \<Rightarrow> (w, []) | Inr r \<Rightarrow> r)"
| "applyOp OpStart w = start w"
| "applyOp OpPause w = pause w"
| "applyOp OpResume w = resume w"
| "applyOp OpReset w = reset w"
| "applyOp OpUpdate w = update w"
| "applyOp OpDestroy w = destroy w"
| "applyOp OpFrame w = runFrame w"
| "applyOp (OpAdvance d) (h, e) = ((h\<lparr>clock := clock h + int d, date := date h + int d\<rparr>, e), [])"

fun applyOps :: "Op list \<Rightarrow> World \<Rightarrow> World \<times> Event list" where
  "applyOps [] w = (w, [])"
| "applyOps (x # xs) w =
     (let (w1, evs1) = applyOp x w;
          (w2, evs2) = applyOps xs w1
      in (w2, evs1 @ evs2))"

definition emitted :: "error + World \<times> Event list \<Rightarrow> Event list" where
  "emitted r = (case r of Inl err \<Rightarrow> [] | Inr (w, evs) \<Rightarrow> evs)"

definition isComplete :: "Event \<Rightarrow> bool" where
  "isComplete ev = (eventName ev = ''complete'')"

text \<open>
  The operations that can occur within one run of a timer: everything but a reset, a
  change of mode or target time, and the destruction of the engine.
\<close>

fun inRun :: "Op \<Rightarrow> bool" where
  "inRun OpStart = True"
| "inRun OpPause = True"
| "inRun OpResume = True"
| "inRun OpUpdate = True"
| "inRun OpFrame = True"
| "inRun (OpAdvance d) = True"
| "inRun x = False"

definition flagsOk :: "World \<Rightarrow> bool" where
  "flagsOk w = (\<not> (isRunning (state (snd w)) \<and> isPaused (state (snd w))))"

text \<open>
  Handles are positive, and at most one frame is pending: the one whose handle the engine
  holds, and only while the timer runs.
\<close>

definition frameInv :: "World \<Rightarrow> bool" where
  "frameInv w =
     (0 < nextHandle (fst w) \<and> animationFrameId (snd w) \<noteq> Some 0 \<and>
      (frames (fst w) = [] \<or>
       (frames (fst w) = [nextHandle (fst w) - 1] \<and>
        animationFrameId (snd w) = Some (nextHandle (fst w) - 1) \<and>
        1 < nextHandle (fst w) \<and>
        isRunning (state (snd w)) \<and> \<not> isPaused (state (snd w)))))"

text \<open>A countdown that has completed and was not reset.\<close>

definition finished :: "World \<Rightarrow> bool" where
  "finished w =
     (mode (state (snd w)) = Countdown \<and> currentTime (state (snd w)) = 0 \<and>
      \<not> isRunning (state (snd w)) \<and> \<not> isPaused (state (snd w)))"

text \<open>A browser in which no frame has been requested yet.\<close>

definition freshHost :: Host where
  "freshHost = \<lparr>clock = 0, date = 0, frames = [], nextHandle = 1\<rparr>"

text \<open>A countdown of 250 ms that was started at clock 0, seen at clock 300.\<close>

definition runningCountdown :: TimerEngine where
  "runningCountdown =
     \<lparr>state = \<lparr>mode = Countdown, isRunning = True, isPaused = False, currentTime = 250,
               targetTime = 250, startTime = 0\<rparr>,
      animationFrameId = Some 1,
      lastUpdateTime = 0,
      eventListeners = (\<lambda>name. [])\<rparr>"

definition lateHost :: Host where
  "lateHost = \<lparr>clock = 300, date = 300, frames = [], nextHandle = 2\<rparr>"

text \<open>A stopwatch that has just been started on a new engine.\<close>

definition runningStopwatch :: World where
  "runningStopwatch = fst (applyOps [OpSetMode ''stopwatch'', OpStart] (freshHost, newTimerEngine))"

subsection \<open>JavaScript strings and values\<close>

text \<open>\<^verbatim>\<open>\d\<close> of a regular expression.\<close>

definition isDigit :: "char \<Rightarrow> bool" where
  "isDigit c = (c \<in> set ''0123456789'')"

text \<open>
  \<^verbatim>\<open>\s\<close> and the characters removed by \<^verbatim>\<open>trim\<close>, among the 8-bit characters: tab,
  line feed, vertical tab, form feed, carriage return, space and no-break space.
\<close>

definition isSpace :: "char \<Rightarrow> bool" where
  "isSpace c = (c \<in> set [CHR 0x09, CHR 0x0A, CHR 0x0B, CHR 0x0C, CHR 0x0D, CHR 0x20, CHR 0xA0])"

definition trim :: "string \<Rightarrow> string" where
  "trim s = dropWhile isSpace (rev (dropWhile isSpace (rev s)))"

definition digitChar :: "nat \<Rightarrow> char" where
  "digitChar n = ''0123456789'' ! n"

definition digitVal :: "char \<Rightarrow> nat" where
  "digitVal c = of_char c - 48"

text \<open>\<^verbatim>\<open>Number.prototype.toString\<close> on an integer.\<close>

function natToString :: "nat \<Rightarrow> string" where
  "natToString n = (if n < 10 then [digitChar n] else natToString (n div 10) @ [digitChar (n mod 10)])"
  by pat_completeness auto
termination
  by (relation "measure id") auto

declare natToString.simps [simp del]

definition intToString :: "int \<Rightarrow> string" where
  "intToString i = (if i < 0 then CHR ''-'' # natToString (nat (- i)) else natToString (nat i))"

text \<open>\<^verbatim>\<open>parseInt(s, 10)\<close> on a string of decimal digits.\<close>

definition parseInt :: "string \<Rightarrow> int" where
  "parseInt s = int (foldl (\<lambda>acc c. acc * 10 + digitVal c) 0 s)"

definition padStart :: "nat \<Rightarrow> char \<Rightarrow> string \<Rightarrow> string" where
  "padStart targetLength c s = replicate (targetLength - length s) c @ s"

text \<open>
  The remainder operator \<^verbatim>\<open>%\<close> with a positive divisor: the result has the sign of the
  dividend.
\<close>

definition jsRem :: "int \<Rightarrow> int \<Rightarrow> int" where
  "jsRem a b = (if a < 0 then - ((- a) mod b) else a mod b)"

text \<open>
  The values a caller can pass where a number or a string is expected. The numbers are
  the integers, \<^verbatim>\<open>NaN\<close>, \<^verbatim>\<open>Infinity\<close> and \<^verbatim>\<open>-Infinity\<close>. \<open>JObject s\<close> is any
  other value that a template literal converts to the string \<open>s\<close> (an object, an
  array, a bigint).
\<close>

datatype JSValue =
    JNum int
  | JNaN
  | JInfinity
  | JNegInfinity
  | JStr string
  | JBool bool
  | JNull
  | JUndefined
  | JObject string


text \<open>The conversion to string of a template literal.\<close>

fun toStringJS :: "JSValue \<Rightarrow> string" where
  "toStringJS (JNum n) = intToString n"
| "toStringJS JNaN = ''NaN''"
| "toStringJS JInfinity = ''Infinity''"
| "toStringJS JNegInfinity = ''-Infinity''"
| "toStringJS (JStr s) = s"
| "toStringJS (JBool b) = (if b then ''true'' else ''false'')"
| "toStringJS JNull = ''null''"
| "toStringJS JUndefined = ''undefined''"
| "toStringJS (JObject s) = s"

subsection \<open>TimerEngine.formatTime (timer-engine.js)\<close>

definition engineFormatTime :: "int \<Rightarrow> string" where
  "engineFormatTime milliseconds =
     (let totalSeconds = milliseconds div 1000;
          hours = totalSeconds div 3600;
          minutes = (jsRem totalSeconds 3600) div 60;
          seconds = jsRem totalSeconds 60
      in if hours > 0
         then padStart 2 CHR ''0'' (intToString hours) @ '':'' @
              padStart 2 CHR ''0'' (intToString minutes) @ '':'' @
              padStart 2 CHR ''0'' (intToString seconds)
         else padStart 2 CHR ''0'' (intToString minutes) @ '':'' @
              padStart 2 CHR ''0'' (intToString seconds))"

subsection \<open>TimeFormatter (time-formatter.js)\<close>

text \<open>
  The options object of \<^verbatim>\<open>formatTime\<close>: its properties in the order they were written,
  with boolean values. A property that is absent takes its default.
\<close>

datatype OptKey = ShowMilliseconds | ForceHours | Compact | ShowLeadingZero

type_synonym Options = "(OptKey \<times> bool) list"

fun optionName :: "OptKey \<Rightarrow> string" where
  "optionName ShowMilliseconds = ''showMilliseconds''"
| "optionName ForceHours = ''forceHours''"
| "optionName Compact = ''compact''"
| "optionName ShowLeadingZero = ''showLeadingZero''"

definition getOption :: "OptKey \<Rightarrow> bool \<Rightarrow> Options \<Rightarrow> bool" where
  "getOption k dflt options = (case map_of options k of None \<Rightarrow> dflt | Some b \<Rightarrow> b)"

fun joinWith :: "string \<Rightarrow> string list \<Rightarrow> string" where
  "joinWith sep [] = []"
| "joinWith sep [x] = x"
| "joinWith sep (x # y # ys) = x @ sep @ joinWith sep (y # ys)"

text \<open>\<^verbatim>\<open>JSON.stringify\<close> of the options object; \<open>CHR 0x22\<close> is the double quote.\<close>

definition jsonStringify :: "Options \<Rightarrow> string" where
  "jsonStringify options =
     ''{'' @ joinWith '','' (map (\<lambda>(k, b). [CHR 0x22] @ optionName k @ [CHR 0x22] @ '':'' @
                                     (if b then ''true'' else ''false'')) options) @ ''}''"

text \<open>
  The cache is a \<^verbatim>\<open>Map\<close>: keys in the order of their first insertion.
\<close>

record TimeFormatter =
  formatCache :: "(string \<times> string) list"
  maxCacheSize :: nat

definition newTimeFormatter :: TimeFormatter where
  "newTimeFormatter = \<lparr>formatCache = [], maxCacheSize = 1000\<rparr>"

fun mapSet :: "string \<Rightarrow> string \<Rightarrow> (string \<times> string) list \<Rightarrow> (string \<times> string) list" where
  "mapSet k v [] = [(k, v)]"
| "mapSet k v (p # ps) = (if fst p = k then (k, v) # ps else p # mapSet k v ps)"

definition cacheFormatted :: "string \<Rightarrow> string \<Rightarrow> TimeFormatter \<Rightarrow> TimeFormatter" where
  "cacheFormatted key val tf =
     (let c = (if length (formatCache tf) \<ge> maxCacheSize tf
               then (case formatCache tf of
                       [] \<Rightarrow> []
                     | p # ps \<Rightarrow> filter (\<lambda>q. fst q \<noteq> fst p) ps)
               else formatCache tf)
      in tf\<lparr>formatCache := mapSet key val c\<rparr>)"

text \<open>
  The part of \<^verbatim>\<open>formatTime\<close> that builds the string from the components: the arguments
  are \<^verbatim>\<open>hours.toString()\<close>, the truth of \<^verbatim>\<open>hours > 0\<close>, \<^verbatim>\<open>minutes.toString()\<close>,
  \<^verbatim>\<open>seconds.toString()\<close>, \<^verbatim>\<open>ms.toString()\<close> and the four options.
\<close>

definition formatComponents :: "string \<Rightarrow> bool \<Rightarrow> string \<Rightarrow> string \<Rightarrow> string
    \<Rightarrow> bool \<Rightarrow> bool \<Rightarrow> bool \<Rightarrow> bool \<Rightarrow> string" where
  "formatComponents hours hoursPositive minutes seconds ms
       showMilliseconds forceHours compactF showLeadingZero =
     (let formatted =
            (if forceHours \<or> hoursPositive then
               let h = (if showLeadingZero then padStart 2 CHR ''0'' hours else hours);
                   m = padStart 2 CHR ''0'' minutes;
                   s = padStart 2 CHR ''0'' seconds
               in if compactF then h @ ''h '' @ m @ ''m '' @ s @ ''s''
                  else h @ '':'' @ m @ '':'' @ s
             else
               let m = (if showLeadingZero then padStart 2 CHR ''0'' minutes else minutes);
                   s = padStart 2 CHR ''0'' seconds
               in if compactF then m @ ''m '' @ s @ ''s''
                  else m @ '':'' @ s)
      in if showMilliseconds
         then (let msFormatted = padStart 3 CHR ''0'' ms
               in formatted @ (if compactF then '' '' @ msFormatted @ ''ms''
                               else ''.'' @ msFormatted))
         else formatted)"

text \<open>
  The body of \<^verbatim>\<open>formatTime\<close> between the validation and the caching, on an integer
  that is not negative.
\<close>

definition renderTime :: "int \<Rightarrow> bool \<Rightarrow> bool \<Rightarrow> bool \<Rightarrow> bool \<Rightarrow> string" where
  "renderTime milliseconds showMilliseconds forceHours compactF showLeadingZero =
     (let totalMs = milliseconds;
          totalSeconds = totalMs div 1000;
          ms = jsRem totalMs 1000;
          hours = totalSeconds div 3600;
          minutes = (jsRem totalSeconds 3600) div 60;
          seconds = jsRem totalSeconds 60
      in formatComponents (intToString hours) (hours > 0) (intToString minutes)
           (intToString seconds) (intToString ms)
           showMilliseconds forceHours compactF showLeadingZero)"

text \<open>
  \<^verbatim>\<open>NaN\<close> and \<^verbatim>\<open>Infinity\<close> are numbers and not below zero, so they pass the validation.
  With \<^verbatim>\<open>NaN\<close>, every component is \<^verbatim>\<open>NaN\<close> (\<^verbatim>\<open>Math.floor\<close>, the division and the
  remainder of \<^verbatim>\<open>NaN\<close> are \<^verbatim>\<open>NaN\<close>) and \<^verbatim>\<open>hours > 0\<close> is false. With \<^verbatim>\<open>Infinity\<close>,
  the total seconds and the hours are \<^verbatim>\<open>Infinity\<close> (the floor of a quotient of
  \<^verbatim>\<open>Infinity\<close>), so \<^verbatim>\<open>hours > 0\<close> is true, and the milliseconds, minutes and seconds
  are \<^verbatim>\<open>NaN\<close> (a remainder of \<^verbatim>\<open>Infinity\<close>). \<^verbatim>\<open>-Infinity\<close> is below zero.
\<close>

definition formatTime :: "JSValue \<Rightarrow> Options \<Rightarrow> TimeFormatter \<Rightarrow> string \<times> TimeFormatter" where
  "formatTime milliseconds options tf =
     (let showMilliseconds = getOption ShowMilliseconds False options;
          forceHours = getOption ForceHours False options;
          compactF = getOption Compact False options;
          showLeadingZero = getOption ShowLeadingZero True options;
          cacheKey = toStringJS milliseconds @ ''-'' @ jsonStringify options
      in case map_of (formatCache tf) cacheKey of
           Some cached \<Rightarrow> (cached, tf)
         | None \<Rightarrow>
             (case milliseconds of
                JNum n \<Rightarrow>
                  if n < 0 then (''00:00'', tf)
                  else
                    let formatted = renderTime n showMilliseconds forceHours compactF showLeadingZero
                    in (formatted, cacheFormatted cacheKey formatted tf)
              | JNaN \<Rightarrow>
                  let formatted = formatComponents ''NaN'' False ''NaN'' ''NaN'' ''NaN''
                                    showMilliseconds forceHours compactF showLeadingZero
                  in (formatted, cacheFormatted cacheKey formatted tf)
              | JInfinity \<Rightarrow>
                  let formatted = formatComponents ''Infinity'' True ''NaN'' ''NaN'' ''NaN''
                                    showMilliseconds forceHours compactF showLeadingZero
                  in (formatted, cacheFormatted cacheKey formatted tf)
              | _ \<Rightarrow> (''00:00'', tf)))"

text \<open>
  The regular expressions of \<^verbatim>\<open>parseTime\<close>, each written as the function that returns
  its capture groups on a match of the whole string and \<open>None\<close> otherwise.

  \<^verbatim>\<open>colonPattern = /^(\d{1,2}):(\d{2})(?::(\d{2}))?$/\<close>: the first group takes two
  digits if it can and one digit otherwise; the third group is absent when the string
  ends after the second.
\<close>

fun twoDigits :: "string \<Rightarrow> (string \<times> string) option" where
  "twoDigits (a # b # r) = (if isDigit a \<and> isDigit b then Some ([a, b], r) else None)"
| "twoDigits s = None"

definition colonRest :: "string \<Rightarrow> string \<Rightarrow> (string \<times> string \<times> string option) option" where
  "colonRest first s =
     (case s of
        [] \<Rightarrow> None
      | c # r \<Rightarrow>
          if c \<noteq> CHR '':'' then None
          else
            (case twoDigits r of
               None \<Rightarrow> None
             | Some (second, r2) \<Rightarrow>
                 (case r2 of
                    [] \<Rightarrow> Some (first, second, None)
                  | c2 # r3 \<Rightarrow>
                      if c2 \<noteq> CHR '':'' then None
                      else
                        (case twoDigits r3 of
                           None \<Rightarrow> None
                         | Some (third, r4) \<Rightarrow>
                             if r4 = [] then Some (first, second, Some third) else None))))"

definition colonMatch :: "string \<Rightarrow> (string \<times> string \<times> string option) option" where
  "colonMatch s =
     (case (case twoDigits s of
              None \<Rightarrow> None
            | Some (first, r) \<Rightarrow> colonRest first r) of
        Some m \<Rightarrow> Some m
      | None \<Rightarrow>
          (case s of
             [] \<Rightarrow> None
           | a # r \<Rightarrow> if isDigit a then colonRest [a] r else None))"

text \<open>
  \<^verbatim>\<open>compactPattern = /^(?:(\d+)h\s*)?(?:(\d+)m\s*)?(?:(\d+)s\s*)?$/\<close>. One optional
  group \<^verbatim>\<open>(?:(\d+)u\s*)?\<close> at the head of a string: if a run of digits is followed by
  the unit letter, the group takes the digits, the letter and all white space after it;
  otherwise the group is absent. (Where the group can match, no other reading of the
  pattern succeeds: the digits are followed by this unit letter and by no other, and a
  white space left over is matched by nothing that follows.)
\<close>

definition unitGroup :: "char \<Rightarrow> string \<Rightarrow> string option \<times> string" where
  "unitGroup u s =
     (let ds = takeWhile isDigit s
      in case dropWhile isDigit s of
           [] \<Rightarrow> (None, s)
         | c # r \<Rightarrow> if ds \<noteq> [] \<and> c = u then (Some ds, dropWhile isSpace r) else (None, s))"

definition compactMatch :: "string \<Rightarrow> (string option \<times> string option \<times> string option) option" where
  "compactMatch s =
     (let (hours, s1) = unitGroup CHR ''h'' s;
          (minutes, s2) = unitGroup CHR ''m'' s1;
          (seconds, s3) = unitGroup CHR ''s'' s2
      in if s3 = [] then Some (hours, minutes, seconds) else None)"

text \<open>\<^verbatim>\<open>numberPattern = /^\d+$/\<close>\<close>

definition numberMatch :: "string \<Rightarrow> bool" where
  "numberMatch s = (s \<noteq> [] \<and> list_all isDigit s)"

text \<open>\<^verbatim>\<open>x ? parseInt(x, 10) : 0\<close> on a capture group.\<close>

definition groupValue :: "string option \<Rightarrow> int" where
  "groupValue g = (case g of None \<Rightarrow> 0 | Some ds \<Rightarrow> if ds = [] then 0 else parseInt ds)"

definition parseTimeString :: "string \<Rightarrow> error + int" where
  "parseTimeString timeString =
     (let trimmed = trim timeString
      in if trimmed = [] then Inr 0
         else
           (case colonMatch trimmed of
              Some (first, second, Some third) \<Rightarrow>
                (let hours = parseInt first;
                     minutes = parseInt second;
                     seconds = parseInt third
                 in if minutes \<ge> 60 \<or> seconds \<ge> 60 then Inl FormatMinutesOrSeconds
                    else Inr ((hours * 3600 + minutes * 60 + seconds) * 1000))
            | Some (first, second, None) \<Rightarrow>
                (let minutes = parseInt first;
                     seconds = parseInt second
                 in if seconds \<ge> 60 then Inl FormatSeconds
                    else Inr ((minutes * 60 + seconds) * 1000))
            | None \<Rightarrow>
                (case compactMatch trimmed of
                   Some (hours, minutes, seconds) \<Rightarrow>
                     (let h = groupValue hours;
                          m = groupValue minutes;
                          s = groupValue seconds
                      in Inr ((h * 3600 + m * 60 + s) * 1000))
                 | None \<Rightarrow>
                     if numberMatch trimmed then Inr (parseInt trimmed * 1000)
                     else Inl FormatUnrecognised)))"

definition parseTime :: "JSValue \<Rightarrow> error + int" where
  "parseTime timeString =
     (case timeString of
        JStr s \<Rightarrow> parseTimeString s
      | _ \<Rightarrow> Inl NotAString)"

text \<open>The three errors of \<^verbatim>\<open>parseTime\<close> whose message starts with "Invalid time format".\<close>

definition isInvalidFormat :: "error + int \<Rightarrow> bool" where
  "isInvalidFormat r =
     (r = Inl FormatMinutesOrSeconds \<or> r = Inl FormatSeconds \<or> r = Inl FormatUnrecognised)"

subsection \<open>Calls of the callbacks registered with the components\<close>

text \<open>
  A callback registered with a component is a number. What a component does to a callback
  is call it with a payload, inside \<^verbatim>\<open>try\<close>/\<^verbatim>\<open>catch\<close>; the model records the calls in
  order. The payloads, in the order of the fields of the object literals: a warning
  \<open>{threshold, remainingTime, formatted, isUrgent}\<close>, a countdown milestone
  \<open>{milestone, remainingTime, formatted, isLeBronMilestone}\<close>, a completion
  \<open>{finalTime, originalDuration, completedAt}\<close> (its \<open>mode\<close> is always the string
  countdown), a lap (the lap record), a stopwatch milestone of a threshold
  \<open>{milestone, elapsedTime, formatted, isLeBronMilestone, threshold}\<close> and a stopwatch
  milestone of a minute \<open>{milestone, elapsedTime, formatted}\<close> (its \<open>isLeBronMilestone\<close>
  is always true).
\<close>

record LapRecord =
  lapNumber :: nat
  lapTime :: int
  totalTime :: int
  timestamp :: int
  formattedLapTime :: string
  formattedTotalTime :: string

datatype Call =
    WarningCall nat int int string bool
  | MilestoneCall nat int int string bool
  | CompletionCall nat int int int
  | LapCall nat LapRecord
  | ThresholdMilestoneCall nat int int string bool int
  | LebronMilestoneCall nat int int string

text \<open>
  \<^verbatim>\<open>data.currentTime\<close> of an event payload: absent from the payloads of complete,
  modeChanged, targetTimeChanged, error and maxDurationReached. (A comparison with
  \<^verbatim>\<open>undefined\<close> is false, and reading a property of the \<^verbatim>\<open>null\<close> payload of
  destroyed throws inside the \<^verbatim>\<open>try\<close> of \<^verbatim>\<open>emit\<close>: in both cases a tick handler does
  nothing.)
\<close>

fun eventCurrentTime :: "Event \<Rightarrow> int option" where
  "eventCurrentTime (EvTick m c t r p) = Some c"
| "eventCurrentTime (EvStart m c t) = Some c"
| "eventCurrentTime (EvPause c m) = Some c"
| "eventCurrentTime (EvResume c m) = Some c"
| "eventCurrentTime (EvReset m c w) = Some c"
| "eventCurrentTime ev = None"

subsection \<open>CountdownTimer (countdown-timer.js)\<close>

record CountdownTimer =
  completionCallbacks :: "nat list"
  warningCallbacks :: "nat list"
  milestoneCallbacks :: "nat list"
  warningsTriggered :: "int list"

definition warningThresholds :: "int list" where
  "warningThresholds = [60000, 30000, 10000, 5000, 3000, 1000]"

type_synonym CountdownSys = "Host \<times> TimerEngine \<times> CountdownTimer"

text \<open>The constructor: empty callback lists and the three listeners on the engine.\<close>

definition newCountdownTimer :: "TimerEngine \<Rightarrow> TimerEngine \<times> CountdownTimer" where
  "newCountdownTimer timerEngine =
     (addEventListener ''reset'' CountdownOnReset
        (addEventListener ''complete'' CountdownOnComplete
           (addEventListener ''tick'' CountdownOnTick timerEngine)),
      \<lparr>completionCallbacks = [], warningCallbacks = [], milestoneCallbacks = [],
       warningsTriggered = []\<rparr>)"

text \<open>
  The loop of \<^verbatim>\<open>checkWarnings\<close> over the thresholds that are left; the \<^verbatim>\<open>break\<close> is
  the branch without a recursive call.
\<close>

fun checkWarningsFrom :: "int list \<Rightarrow> int \<Rightarrow> CountdownTimer \<Rightarrow> CountdownTimer \<times> Call list" where
  "checkWarningsFrom [] current ct = (ct, [])"
| "checkWarningsFrom (threshold # rest) current ct =
     (if current \<le> threshold \<and> threshold \<notin> set (warningsTriggered ct)
      then (ct\<lparr>warningsTriggered := warningsTriggered ct @ [threshold]\<rparr>,
            map (\<lambda>callback. WarningCall callback threshold current
                               (engineFormatTime current) (threshold \<le> 10000))
                (warningCallbacks ct))
      else checkWarningsFrom rest current ct)"

definition checkWarnings :: "int \<Rightarrow> CountdownTimer \<Rightarrow> CountdownTimer \<times> Call list" where
  "checkWarnings current ct = checkWarningsFrom warningThresholds current ct"

definition isAtMilestone :: "int \<Rightarrow> bool" where
  "isAtMilestone current = (current div (1000 * 60) \<in> set LEBRON_MILESTONES)"

definition checkMilestones :: "int \<Rightarrow> CountdownTimer \<Rightarrow> Call list" where
  "checkMilestones current ct =
     (if isAtMilestone current
      then (let minutes = current div (1000 * 60)
            in map (\<lambda>callback. MilestoneCall callback minutes current
                                  (engineFormatTime current) (minutes \<in> set [6, 23]))
                   (milestoneCallbacks ct))
      else [])"

definition onTick :: "Event \<Rightarrow> CountdownTimer \<Rightarrow> CountdownTimer \<times> Call list" where
  "onTick data ct =
     (case eventCurrentTime data of
        None \<Rightarrow> (ct, [])
      | Some current \<Rightarrow>
          (let (ct1, calls1) = checkWarnings current ct;
               calls2 = checkMilestones current ct1
           in (ct1, calls1 @ calls2)))"

definition onComplete :: "Host \<Rightarrow> TimerEngine \<Rightarrow> CountdownTimer \<Rightarrow> Call list" where
  "onComplete h e ct =
     map (\<lambda>callback. CompletionCall callback 0 (targetTime (state e)) (date h))
         (completionCallbacks ct)"

text \<open>
  One call of a listener by \<^verbatim>\<open>emit\<close>, as far as the countdown timer is concerned: the
  listeners of other components leave it as it is.
\<close>

fun countdownListener :: "Host \<Rightarrow> TimerEngine \<Rightarrow> Event \<Rightarrow> Listener \<Rightarrow> CountdownTimer
    \<Rightarrow> CountdownTimer \<times> Call list" where
  "countdownListener h e ev CountdownOnTick ct = onTick ev ct"
| "countdownListener h e ev CountdownOnComplete ct = (ct, onComplete h e ct)"
| "countdownListener h e ev CountdownOnReset ct = (ct\<lparr>warningsTriggered := []\<rparr>, [])"
| "countdownListener h e ev cb ct = (ct, [])"

fun countdownListeners :: "Host \<Rightarrow> TimerEngine \<Rightarrow> Event \<Rightarrow> Listener list \<Rightarrow> CountdownTimer
    \<Rightarrow> CountdownTimer \<times> Call list" where
  "countdownListeners h e ev [] ct = (ct, [])"
| "countdownListeners h e ev (cb # cbs) ct =
     (let (ct1, calls1) = countdownListener h e ev cb ct;
          (ct2, calls2) = countdownListeners h e ev cbs ct1
      in (ct2, calls1 @ calls2))"

text \<open>
  The listeners run by the events of one engine operation. The engine is the one after
  the operation: no operation changes the listeners before it emits, except
  \<^verbatim>\<open>destroy\<close>, which removes them all first; and the only field a listener reads from
  the engine, the target time at completion, is not assigned after the emission.
\<close>

fun countdownDispatch :: "Host \<Rightarrow> TimerEngine \<Rightarrow> Event list \<Rightarrow> CountdownTimer
    \<Rightarrow> CountdownTimer \<times> Call list" where
  "countdownDispatch h e [] ct = (ct, [])"
| "countdownDispatch h e (ev # evs) ct =
     (let (ct1, calls1) = countdownListeners h e ev (eventListeners e (eventName ev)) ct;
          (ct2, calls2) = countdownDispatch h e evs ct1
      in (ct2, calls1 @ calls2))"

text \<open>
  \<^verbatim>\<open>setDuration\<close> returns the total or throws; the state is returned in both cases,
  since an exception of \<^verbatim>\<open>setTargetTime\<close> comes after \<^verbatim>\<open>setMode\<close> has run.
\<close>

definition setDuration :: "int \<Rightarrow> int \<Rightarrow> CountdownSys \<Rightarrow> (error + int) \<times> CountdownSys \<times> Event list \<times> Call list" where
  "setDuration minutes seconds sys =
     (case sys of (h, e, ct) \<Rightarrow>
        if minutes < 0 \<or> seconds < 0 then (Inl DurationNegative, sys, [], [])
        else if minutes > 1440 then (Inl DurationExceeds24h, sys, [], [])
        else if seconds \<ge> 60 then (Inl SecondsNotBelow60, sys, [], [])
        else
          let totalMilliseconds = (minutes * 60 + seconds) * 1000
          in if totalMilliseconds = 0 then (Inl DurationZero, sys, [], [])
             else
               (case setMode ''countdown'' (h, e) of
                  Inl err \<Rightarrow> (Inl err, sys, [], [])
                | Inr ((h1, e1), evs1) \<Rightarrow>
                    let (ct1, calls1) = countdownDispatch h1 e1 evs1 ct
                    in (case setTargetTime totalMilliseconds (h1, e1) of
                          Inl err \<Rightarrow> (Inl err, (h1, e1, ct1), evs1, calls1)
                        | Inr ((h2, e2), evs2) \<Rightarrow>
                            let (ct2, calls2) = countdownDispatch h2 e2 evs2 ct1;
                                ct3 = ct2\<lparr>warningsTriggered := []\<rparr>
                            in (Inr totalMilliseconds, (h2, e2, ct3), evs1 @ evs2,
                                calls1 @ calls2))))"

definition setDurationFromMilliseconds :: "int \<Rightarrow> CountdownSys \<Rightarrow> (error + int) \<times> CountdownSys \<times> Event list \<times> Call list" where
  "setDurationFromMilliseconds milliseconds sys =
     (case sys of (h, e, ct) \<Rightarrow>
        if milliseconds \<le> 0 then (Inl DurationZero, sys, [], [])
        else if milliseconds > MAX_DURATION then (Inl DurationExceedsMax, sys, [], [])
        else
          (case setMode ''countdown'' (h, e) of
             Inl err \<Rightarrow> (Inl err, sys, [], [])
           | Inr ((h1, e1), evs1) \<Rightarrow>
               let (ct1, calls1) = countdownDispatch h1 e1 evs1 ct
               in (case setTargetTime milliseconds (h1, e1) of
                     Inl err \<Rightarrow> (Inl err, (h1, e1, ct1), evs1, calls1)
                   | Inr ((h2, e2), evs2) \<Rightarrow>
                       let (ct2, calls2) = countdownDispatch h2 e2 evs2 ct1;
                           ct3 = ct2\<lparr>warningsTriggered := []\<rparr>
                       in (Inr milliseconds, (h2, e2, ct3), evs1 @ evs2, calls1 @ calls2))))"

text \<open>
  An engine operation on a system with a countdown timer: the operation, then the
  listeners. \<^verbatim>\<open>pause\<close>, \<^verbatim>\<open>resume\<close> and \<^verbatim>\<open>reset\<close> of the countdown timer are the engine's.
\<close>

definition countdownOp :: "Op \<Rightarrow> CountdownSys \<Rightarrow> CountdownSys \<times> Event list \<times> Call list" where
  "countdownOp x sys =
     (case sys of (h, e, ct) \<Rightarrow>
        let ((h1, e1), evs) = applyOp x (h, e);
            (ct1, calls) = countdownDispatch h1 e1 evs ct
        in ((h1, e1, ct1), evs, calls))"

text \<open>\<^verbatim>\<open>CountdownTimer.start\<close>: the guard that throws, then the engine's start.\<close>

definition countdownStart :: "CountdownSys \<Rightarrow> (error + unit) \<times> CountdownSys \<times> Event list \<times> Call list" where
  "countdownStart sys =
     (case sys of (h, e, ct) \<Rightarrow>
        if currentTime (state e) \<le> 0 then (Inl StartAtZero, sys, [], [])
        else (let (sys1, evs, calls) = countdownOp OpStart sys in (Inr (), sys1, evs, calls)))"

fun countdownOps :: "Op list \<Rightarrow> CountdownSys \<Rightarrow> CountdownSys \<times> Event list \<times> Call list" where
  "countdownOps [] sys = (sys, [], [])"
| "countdownOps (x # xs) sys =
     (let (sys1, evs1, calls1) = countdownOp x sys;
          (sys2, evs2, calls2) = countdownOps xs sys1
      in (sys2, evs1 @ evs2, calls1 @ calls2))"

text \<open>The thresholds of the warnings a callback was called with, in order.\<close>

fun warningsOf :: "nat \<Rightarrow> Call list \<Rightarrow> int list" where
  "warningsOf cb [] = []"
| "warningsOf cb (WarningCall cb' threshold remaining formatted urgent # calls) =
     (if cb' = cb then threshold # warningsOf cb calls else warningsOf cb calls)"
| "warningsOf cb (c # calls) = warningsOf cb calls"

text \<open>
  The listeners of the countdown timer are registered as its constructor registers them:
  each once, under its own event.
\<close>

definition countdownWired :: "TimerEngine \<Rightarrow> bool" where
  "countdownWired e =
     (\<forall>name. filter (\<lambda>cb. cb \<in> set [CountdownOnTick, CountdownOnComplete, CountdownOnReset])
               (eventListeners e name) =
             (if name = ''tick'' then [CountdownOnTick]
              else if name = ''complete'' then [CountdownOnComplete]
              else if name = ''reset'' then [CountdownOnReset]
              else []))"

subsection \<open>Stopwatch\<close>

datatype MilestoneKey = ThresholdKey int | LebronKey int

record Stopwatch =
  lapTimes :: "LapRecord list"
  stopwatchMilestoneCallbacks :: "nat list"
  lapCallbacks :: "nat list"
  milestonesReached :: "MilestoneKey list"

definition milestoneThresholds :: "int list" where
  "milestoneThresholds = [60000, 5 * 60000, 10 * 60000, 15 * 60000, 23 * 60000, 30 * 60000, 60 * 60000]"

type_synonym StopwatchSys = "Host \<times> TimerEngine \<times> Stopwatch"

definition newStopwatch :: "TimerEngine \<Rightarrow> TimerEngine \<times> Stopwatch" where
  "newStopwatch timerEngine =
     (addEventListener ''reset'' StopwatchOnReset
        (addEventListener ''tick'' StopwatchOnTick timerEngine),
      \<lparr>lapTimes = [], stopwatchMilestoneCallbacks = [], lapCallbacks = [],
       milestonesReached = []\<rparr>)"

fun checkThresholdsFrom :: "int list \<Rightarrow> int \<Rightarrow> Stopwatch \<Rightarrow> Stopwatch \<times> Call list" where
  "checkThresholdsFrom [] current sw = (sw, [])"
| "checkThresholdsFrom (threshold # rest) current sw =
     (if current \<ge> threshold \<and> ThresholdKey threshold \<notin> set (milestonesReached sw)
      then (let minutes = threshold div (1000 * 60)
            in (sw\<lparr>milestonesReached := milestonesReached sw @ [ThresholdKey threshold]\<rparr>,
                map (\<lambda>callback. ThresholdMilestoneCall callback minutes current
                       (engineFormatTime current) (minutes \<in> set [6, 23]) threshold)
                    (stopwatchMilestoneCallbacks sw)))
      else checkThresholdsFrom rest current sw)"

definition stopwatchCheckMilestones :: "int \<Rightarrow> Stopwatch \<Rightarrow> Stopwatch \<times> Call list" where
  "stopwatchCheckMilestones current sw =
     (let (sw1, calls1) = checkThresholdsFrom milestoneThresholds current sw
      in if isAtMilestone current
         then (let minutes = current div (1000 * 60);
                   milestoneKey = LebronKey minutes
               in if milestoneKey \<notin> set (milestonesReached sw1)
                  then (sw1\<lparr>milestonesReached := milestonesReached sw1 @ [milestoneKey]\<rparr>,
                        calls1 @ map (\<lambda>callback. LebronMilestoneCall callback minutes current
                                        (engineFormatTime current))
                                     (stopwatchMilestoneCallbacks sw1))
                  else (sw1, calls1))
         else (sw1, calls1))"

definition stopwatchOnTick :: "Event \<Rightarrow> Stopwatch \<Rightarrow> Stopwatch \<times> Call list" where
  "stopwatchOnTick data sw =
     (case eventCurrentTime data of
        None \<Rightarrow> (sw, [])
      | Some current \<Rightarrow> stopwatchCheckMilestones current sw)"

definition onReset :: "Stopwatch \<Rightarrow> Stopwatch" where
  "onReset sw = sw\<lparr>lapTimes := [], milestonesReached := []\<rparr>"

fun stopwatchListener :: "Event \<Rightarrow> Listener \<Rightarrow> Stopwatch \<Rightarrow> Stopwatch \<times> Call list" where
  "stopwatchListener ev StopwatchOnTick sw = stopwatchOnTick ev sw"
| "stopwatchListener ev StopwatchOnReset sw = (onReset sw, [])"
| "stopwatchListener ev cb sw = (sw, [])"

fun stopwatchListeners :: "Event \<Rightarrow> Listener list \<Rightarrow> Stopwatch \<Rightarrow> Stopwatch \<times> Call list" where
  "stopwatchListeners ev [] sw = (sw, [])"
| "stopwatchListeners ev (cb # cbs) sw =
     (let (sw1, calls1) = stopwatchListener ev cb sw;
          (sw2, calls2) = stopwatchListeners ev cbs sw1
      in (sw2, calls1 @ calls2))"

fun stopwatchDispatch :: "TimerEngine \<Rightarrow> Event list \<Rightarrow> Stopwatch \<Rightarrow> Stopwatch \<times> Call list" where
  "stopwatchDispatch e [] sw = (sw, [])"
| "stopwatchDispatch e (ev # evs) sw =
     (let (sw1, calls1) = stopwatchListeners ev (eventListeners e (eventName ev)) sw;
          (sw2, calls2) = stopwatchDispatch e evs sw1
      in (sw2, calls1 @ calls2))"

definition stopwatchOp :: "Op \<Rightarrow> StopwatchSys \<Rightarrow> StopwatchSys \<times> Event list \<times> Call list" where
  "stopwatchOp x sys =
     (case sys of (h, e, sw) \<Rightarrow>
        let ((h1, e1), evs) = applyOp x (h, e);
            (sw1, calls) = stopwatchDispatch e1 evs sw
        in ((h1, e1, sw1), evs, calls))"

text \<open>\<^verbatim>\<open>Stopwatch.start\<close>: \<^verbatim>\<open>this.engine.setMode('stopwatch'); this.engine.start();\<close>\<close>

definition stopwatchStart :: "StopwatchSys \<Rightarrow> StopwatchSys \<times> Event list \<times> Call list" where
  "stopwatchStart sys =
     (let (sys1, evs1, calls1) = stopwatchOp (OpSetMode ''stopwatch'') sys;
          (sys2, evs2, calls2) = stopwatchOp OpStart sys1
      in (sys2, evs1 @ evs2, calls1 @ calls2))"

definition recordLap :: "StopwatchSys \<Rightarrow> (error + LapRecord) \<times> StopwatchSys \<times> Call list" where
  "recordLap sys =
     (case sys of (h, e, sw) \<Rightarrow>
        let current = currentTime (state e)
        in if current = 0 then (Inl LapAtZero, sys, [])
           else
             let lapNumber' = length (lapTimes sw) + 1;
                 previousLapTime = (if length (lapTimes sw) > 0
                                    then totalTime (last (lapTimes sw)) else 0);
                 lapTime' = current - previousLapTime;
                 lapData = \<lparr>lapNumber = lapNumber', lapTime = lapTime', totalTime = current,
                            timestamp = date h,
                            formattedLapTime = engineFormatTime lapTime',
                            formattedTotalTime = engineFormatTime current\<rparr>;
                 sw1 = sw\<lparr>lapTimes := lapTimes sw @ [lapData]\<rparr>
             in (Inr lapData, (h, e, sw1), map (\<lambda>callback. LapCall callback lapData) (lapCallbacks sw1)))"

text \<open>A new engine with a stopwatch on it, started, run for 12345 ms and paused.\<close>

definition pausedStopwatch :: StopwatchSys where
  "pausedStopwatch =
     (case newStopwatch newTimerEngine of (e, sw) \<Rightarrow>
        fst (stopwatchOp OpPause
          (fst (stopwatchOp OpFrame
            (fst (stopwatchOp (OpAdvance 12345)
              (fst (stopwatchStart (freshHost, e, sw)))))))))"

text \<open>
  A formatter that has served a sequence of \<^verbatim>\<open>formatTime\<close> calls, and what any new
  formatter can become.
\<close>

fun formatCalls :: "(JSValue \<times> Options) list \<Rightarrow> TimeFormatter \<Rightarrow> TimeFormatter" where
  "formatCalls [] tf = tf"
| "formatCalls ((v, options) # calls) tf = formatCalls calls (snd (formatTime v options tf))"




text \<open>Strings of one or two digits, and of exactly two digits.\<close>

definition digits12 :: "string \<Rightarrow> bool" where
  "digits12 s = ((length s = 1 \<or> length s = 2) \<and> list_all isDigit s)"

definition digits2 :: "string \<Rightarrow> bool" where
  "digits2 s = (length s = 2 \<and> list_all isDigit s)"

text \<open>
  Every cache entry under the key of a non-negative number with the empty options object
  holds what \<^verbatim>\<open>formatTime\<close> computes for that number with the default options.
\<close>

definition cacheOk :: "TimeFormatter \<Rightarrow> bool" where
  "cacheOk tf =
     (\<forall>(k, v) \<in> set (formatCache tf).
        \<forall>n. k = natToString n @ ''-{}'' \<longrightarrow> v = renderTime (int n) False False False True)"

text \<open>The two digits of a number below 100.\<close>

definition twoDigitChars :: "nat \<Rightarrow> string" where
  "twoDigitChars n = [digitChar (n div 10), digitChar (n mod 10)]"

text \<open>The paused stopwatch above after one lap was recorded.\<close>

definition pausedWithLap :: StopwatchSys where
  "pausedWithLap = fst (snd (recordLap pausedStopwatch))"

text \<open>A new engine with a countdown timer on it, in a browser that has requested no frame.\<close>

definition newCountdownSys :: CountdownSys where
  "newCountdownSys = (case newCountdownTimer newTimerEngine of (e, ct) \<Rightarrow> (freshHost, e, ct))"

text \<open>The conditions under which \<^verbatim>\<open>setDuration\<close> throws.\<close>

definition durationRejected :: "int \<Rightarrow> int \<Rightarrow> bool" where
  "durationRejected minutes seconds =
     (minutes < 0 \<or> seconds < 0 \<or> minutes > 1440 \<or> seconds \<ge> 60 \<or>
      (minutes * 60 + seconds) * 1000 = 0 \<or> (minutes * 60 + seconds) * 1000 > MAX_DURATION)"

definition engineOf :: "'h \<times> 'e \<times> 'c \<Rightarrow> 'e" where
  "engineOf sys = fst (snd sys)"

definition componentOf :: "'h \<times> 'e \<times> 'c \<Rightarrow> 'c" where
  "componentOf sys = snd (snd sys)"

text \<open>
  What the listeners of a countdown timer do on one event when they are registered as
  the constructor registers them.
\<close>

definition countdownHandle :: "Host \<Rightarrow> TimerEngine \<Rightarrow> Event \<Rightarrow> CountdownTimer \<Rightarrow> CountdownTimer \<times> Call list" where
  "countdownHandle h e ev ct =
     (if eventName ev = ''tick'' then onTick ev ct
      else if eventName ev = ''complete'' then (ct, onComplete h e ct)
      else if eventName ev = ''reset'' then (ct\<lparr>warningsTriggered := []\<rparr>, [])
      else (ct, []))"

text \<open>
  A step of a countdown timer that clears no warning: the callbacks are as before, the
  thresholds a callback was warned of in the step are distinct thresholds of the list,
  none of them had been triggered before the step, and all are triggered after it.
\<close>

definition warnStep :: "nat \<Rightarrow> CountdownTimer \<Rightarrow> CountdownTimer \<times> Call list \<Rightarrow> bool" where
  "warnStep cb ct r =
     (warningCallbacks (fst r) = warningCallbacks ct \<and>
      distinct (warningsOf cb (snd r)) \<and>
      set (warningsOf cb (snd r)) \<inter> set (warningsTriggered ct) = {} \<and>
      set (warningsOf cb (snd r)) \<subseteq> set (warningsTriggered (fst r)) \<and>
      set (warningsOf cb (snd r)) \<subseteq> set warningThresholds \<and>
      set (warningsTriggered ct) \<subseteq> set (warningsTriggered (fst r)))"

definition isTick :: "Event \<Rightarrow> bool" where
  "isTick ev = (eventName ev = ''tick'')"

text \<open>
  A new engine with a countdown timer on it, one warning callback (number 7) and a
  duration of 5 seconds; and the start of a run with two frames, 100 ms apart.
\<close>

definition warnSys :: CountdownSys where
  "warnSys =
     (case newCountdownTimer newTimerEngine of
        (e, ct) \<Rightarrow> fst (snd (setDuration 0 5 (freshHost, e, ct\<lparr>warningCallbacks := [7]\<rparr>))))"

definition warnOps :: "Op list" where
  "warnOps = [OpStart, OpAdvance 100, OpFrame, OpAdvance 100, OpFrame]"

definition startsWithDigit :: "string \<Rightarrow> bool" where
  "startsWithDigit s = (case s of [] \<Rightarrow> False | c # r \<Rightarrow> isDigit c)"


text \<open>
  The world of the second update of a countdown of 250 ms that was started, updated by a
  direct call of \<^verbatim>\<open>update\<close> after 100 ms (the frame requested by the start is still
  pending, and the call requests another) and left alone for 300 ms more.
\<close>

definition directlyUpdated :: World where
  "directlyUpdated =
     fst (applyOps [OpSetTargetTime 250, OpStart, OpAdvance 100, OpUpdate, OpAdvance 300]
            (freshHost, newTimerEngine))"

section \<open>Properties\<close>

subsection \<open>Invariants of the engine\<close>

lemmas host_defs = Let_def requestAnimationFrame_def cancelAnimationFrame_def

lemma flagsOk_applyOp: "flagsOk w \<Longrightarrow> flagsOk (fst (applyOp x w))"
  by (cases w; cases x)
     (auto simp: flagsOk_def host_defs
           split: option.splits if_splits prod.splits list.splits)

lemma flagsOk_applyOps: "flagsOk w \<Longrightarrow> flagsOk (fst (applyOps xs w))"
proof (induction xs arbitrary: w)
  case Nil
  then show ?case by simp
next
  case (Cons x xs)
  obtain w1 evs1 where a: "applyOp x w = (w1, evs1)" by (cases "applyOp x w")
  obtain w2 evs2 where b: "applyOps xs w1 = (w2, evs2)" by (cases "applyOps xs w1")
  from Cons.prems a have "flagsOk w1" using flagsOk_applyOp [of w x] by simp
  then have "flagsOk w2" using Cons.IH [of w1] b by simp
  then show ?case using a b by simp
qed

lemma flagsOk_new: "flagsOk (h, newTimerEngine)"
  by (simp add: flagsOk_def newTimerEngine_def)

lemma frameInv_applyOp: "frameInv w \<Longrightarrow> x \<noteq> OpUpdate \<Longrightarrow> frameInv (fst (applyOp x w))"
  by (cases w; cases x)
     (auto simp: frameInv_def host_defs
           split: option.splits if_splits prod.splits list.splits)

lemma finished_applyOp:
  "finished w \<Longrightarrow> inRun x \<Longrightarrow>
     finished (fst (applyOp x w)) \<and> filter isComplete (snd (applyOp x w)) = []"
  by (cases w; cases x)
     (auto simp: finished_def isComplete_def split: list.splits)

lemma finished_applyOps:
  "finished w \<Longrightarrow> \<forall>x \<in> set xs. inRun x \<Longrightarrow>
     finished (fst (applyOps xs w)) \<and> filter isComplete (snd (applyOps xs w)) = []"
proof (induction xs arbitrary: w)
  case Nil
  then show ?case by simp
next
  case (Cons x xs)
  obtain w1 evs1 where a: "applyOp x w = (w1, evs1)" by (cases "applyOp x w")
  obtain w2 evs2 where b: "applyOps xs w1 = (w2, evs2)" by (cases "applyOps xs w1")
  from Cons.prems a have 1: "finished w1" "filter isComplete evs1 = []"
    using finished_applyOp [of w x] by simp_all
  from Cons.prems have "\<forall>x \<in> set xs. inRun x" by simp
  with 1 have "finished w2" "filter isComplete evs2 = []"
    using Cons.IH [of w1] b by simp_all
  with 1 show ?case using a b by simp
qed

text \<open>
  One step within the run of a countdown that has time left: either time is left
  afterwards and no completion was emitted, or the step completed the countdown.
\<close>

lemma countdown_applyOp:
  assumes "mode (state (snd w)) = Countdown" "0 < currentTime (state (snd w))" "inRun x"
  shows "(mode (state (snd (fst (applyOp x w)))) = Countdown \<and>
          0 < currentTime (state (snd (fst (applyOp x w)))) \<and>
          currentTime (state (snd (fst (applyOp x w)))) \<le> currentTime (state (snd w)) \<and>
          filter isComplete (snd (applyOp x w)) = [])
       \<or> (finished (fst (applyOp x w)) \<and> snd (applyOp x w) = [EvComplete Countdown 0])"
  using assms
  by (cases w; cases x)
     (auto simp: finished_def isComplete_def host_defs UPDATE_INTERVAL_def
           split: list.splits option.splits prod.splits)

lemma countdown_applyOps:
  assumes "mode (state (snd w)) = Countdown" "0 < currentTime (state (snd w))"
    "\<forall>x \<in> set xs. inRun x"
  shows "mode (state (snd (fst (applyOps xs w)))) = Countdown \<and>
         0 \<le> currentTime (state (snd (fst (applyOps xs w)))) \<and>
         currentTime (state (snd (fst (applyOps xs w)))) \<le> currentTime (state (snd w)) \<and>
         length (filter isComplete (snd (applyOps xs w))) =
           (if currentTime (state (snd (fst (applyOps xs w)))) = 0 then 1 else 0) \<and>
         (currentTime (state (snd (fst (applyOps xs w)))) = 0 \<longrightarrow>
            \<not> isRunning (state (snd (fst (applyOps xs w)))))"
  using assms
proof (induction xs arbitrary: w)
  case Nil
  then show ?case by simp
next
  case (Cons x xs)
  obtain w1 evs1 where a: "applyOp x w = (w1, evs1)" by (cases "applyOp x w")
  obtain w2 evs2 where b: "applyOps xs w1 = (w2, evs2)" by (cases "applyOps xs w1")
  from Cons.prems have rest: "\<forall>x \<in> set xs. inRun x" and x: "inRun x" by simp_all
  from countdown_applyOp [OF Cons.prems(1) Cons.prems(2) x] a
  consider (go) "mode (state (snd w1)) = Countdown" "0 < currentTime (state (snd w1))"
      "currentTime (state (snd w1)) \<le> currentTime (state (snd w))"
      "filter isComplete evs1 = []"
    | (stop) "finished w1" "evs1 = [EvComplete Countdown 0]"
    by auto
  then show ?case
  proof cases
    case go
    from Cons.IH [OF go(1) go(2) rest] b go(3,4) show ?thesis using a by simp
  next
    case stop
    from finished_applyOps [OF stop(1) rest] b
    have "finished w2" "filter isComplete evs2 = []" by simp_all
    moreover have "length (filter isComplete evs1) = 1"
      using stop(2) by (simp add: isComplete_def)
    ultimately show ?thesis using Cons.prems(2) a b
      by (simp add: finished_def)
  qed
qed

text \<open>Once a countdown has completed, nothing within the run requests a frame.\<close>

lemma finished_host_applyOp:
  "finished w \<Longrightarrow> inRun x \<Longrightarrow>
     nextHandle (fst (fst (applyOp x w))) = nextHandle (fst w) \<and>
     set (frames (fst (fst (applyOp x w)))) \<subseteq> set (frames (fst w))"
  by (cases w; cases x)
     (auto simp: finished_def split: list.splits)

lemma finished_host_applyOps:
  "finished w \<Longrightarrow> \<forall>x \<in> set xs. inRun x \<Longrightarrow>
     nextHandle (fst (fst (applyOps xs w))) = nextHandle (fst w) \<and>
     set (frames (fst (fst (applyOps xs w)))) \<subseteq> set (frames (fst w))"
proof (induction xs arbitrary: w)
  case Nil
  then show ?case by simp
next
  case (Cons x xs)
  obtain w1 evs1 where a: "applyOp x w = (w1, evs1)" by (cases "applyOp x w")
  obtain w2 evs2 where b: "applyOps xs w1 = (w2, evs2)" by (cases "applyOps xs w1")
  from Cons.prems a have 1: "finished w1"
    using finished_applyOp [of w x] by simp
  from Cons.prems a have 2: "nextHandle (fst w1) = nextHandle (fst w)"
      "set (frames (fst w1)) \<subseteq> set (frames (fst w))"
    using finished_host_applyOp [of w x] by simp_all
  from Cons.prems have "\<forall>x \<in> set xs. inRun x" by simp
  with 1 have "nextHandle (fst w2) = nextHandle (fst w1)"
      "set (frames (fst w2)) \<subseteq> set (frames (fst w1))"
    using Cons.IH [of w1] b by simp_all
  with 2 show ?case using a b by auto
qed

lemma update_countdown_step:
  assumes "mode (state e) = Countdown" "0 < currentTime (state e)"
    "UPDATE_INTERVAL \<le> clock h - lastUpdateTime e"
    "update (h, e) = ((h1, e1), evs1)"
  shows "currentTime (state e1) \<le> currentTime (state e) \<and> 0 \<le> currentTime (state e1) \<and>
         (currentTime (state e1) = 0 \<longrightarrow>
            \<not> isRunning (state e1) \<and> evs1 = [EvComplete Countdown 0] \<and>
            nextHandle h1 = nextHandle h \<and> set (frames h1) \<subseteq> set (frames h) \<and>
            (\<forall>i. animationFrameId e = Some i \<and> 0 < i \<longrightarrow>
                 i \<notin> set (frames h1) \<and> animationFrameId e1 = None))"
  using assms
  by (auto simp: host_defs UPDATE_INTERVAL_def
           split: list.splits option.splits prod.splits if_splits)

lemma update_countdown_clear:
  assumes "mode (state e) = Countdown" "0 < currentTime (state e)"
    "UPDATE_INTERVAL \<le> clock h - lastUpdateTime e"
    "update (h, e) = ((h1, e1), evs1)" "currentTime (state e1) = 0" "frameInv (h, e)"
  shows "frames h1 = []"
  using assms
  by (auto simp: frameInv_def host_defs UPDATE_INTERVAL_def
           split: list.splits option.splits prod.splits if_splits)

lemma directlyUpdated_eq:
  "directlyUpdated =
     (\<lparr>clock = 400, date = 400, frames = [1, 2], nextHandle = 3\<rparr>,
      \<lparr>state = \<lparr>mode = Countdown, isRunning = True, isPaused = False, currentTime = 150,
                targetTime = 250, startTime = 0\<rparr>,
       animationFrameId = Some 2,
       lastUpdateTime = 100,
       eventListeners = (\<lambda>name. [])\<rparr>)"
  by (simp add: directlyUpdated_def freshHost_def newTimerEngine_def MAX_DURATION_def
        UPDATE_INTERVAL_def host_defs getProgress_def)

subsection \<open>C1: a countdown run decreases, stops at zero and completes once\<close>

text \<open>
  Claim C1 as stated: when an update of a countdown run drives \<open>currentTime\<close> to 0, no
  further updates are scheduled. It fails after a direct call of \<^verbatim>\<open>update\<close> (as the
  tests of the engine make): a countdown of 250 ms is started (frame 1 is requested),
  \<^verbatim>\<open>update\<close> is called 100 ms later (frame 2 is requested and its handle replaces that
  of frame 1, which stays pending) and again 300 ms later. The second call completes the
  countdown and cancels frame 2, the one whose handle the engine holds; frame 1, whose
  callback is \<^verbatim>\<open>update\<close>, is still scheduled.
\<close>

theorem countdown_pending_frame_counterexample:
  "mode (state (snd directlyUpdated)) = Countdown \<and>
   0 < currentTime (state (snd directlyUpdated)) \<and>
   isRunning (state (snd directlyUpdated)) \<and> \<not> isPaused (state (snd directlyUpdated)) \<and>
   UPDATE_INTERVAL \<le> clock (fst directlyUpdated) - lastUpdateTime (snd directlyUpdated) \<and>
   frames (fst directlyUpdated) = [1, 2] \<and>
   currentTime (state (snd (fst (update directlyUpdated)))) = 0 \<and>
   snd (update directlyUpdated) = [EvComplete Countdown 0] \<and>
   frames (fst (fst (update directlyUpdated))) = [1]"
  by (simp add: directlyUpdated_eq UPDATE_INTERVAL_def host_defs)

text \<open>
  Claim C1 as amended. In a countdown run (mode Countdown, positive \<open>currentTime\<close>,
  \<open>isRunning\<close>), an update with a clock delta of at least 100 ms leaves \<open>currentTime\<close>
  no larger than before and not negative. If it brings \<open>currentTime\<close> to 0, then
  \<open>isRunning\<close> is false, the update emits exactly the event \<open>complete\<close>, it requests no
  frame, and it cancels the frame whose handle the engine holds; nothing that follows
  within the run requests a frame. No frame at all is pending then and later in the run if
  before the update at most the frame whose handle the engine holds was pending (which
  every operation but a direct call of \<^verbatim>\<open>update\<close> maintains). Whatever follows within
  the same run (start, pause, resume, further updates, frames and the passing of time, in
  any order and number), \<open>currentTime\<close> never grows, and the number of \<open>complete\<close>
  events of the whole run is one if the countdown has reached 0 and zero otherwise.
\<close>

theorem countdown_update_run:
  assumes "mode (state e) = Countdown" and "0 < currentTime (state e)"
    and "isRunning (state e)"
    and "UPDATE_INTERVAL \<le> clock h - lastUpdateTime e"
    and "list_all inRun ops"
    and "update (h, e) = ((h1, e1), evs1)"
    and "applyOps ops (h1, e1) = ((h2, e2), evs2)"
  shows "currentTime (state e1) \<le> currentTime (state e) \<and> 0 \<le> currentTime (state e1) \<and>
         (currentTime (state e1) = 0 \<longrightarrow>
            \<not> isRunning (state e1) \<and> evs1 = [EvComplete Countdown 0] \<and>
            nextHandle h1 = nextHandle h \<and> set (frames h1) \<subseteq> set (frames h) \<and>
            (\<forall>i. animationFrameId e = Some i \<and> 0 < i \<longrightarrow>
                 i \<notin> set (frames h1) \<and> animationFrameId e1 = None) \<and>
            nextHandle h2 = nextHandle h1 \<and> set (frames h2) \<subseteq> set (frames h1) \<and>
            (frameInv (h, e) \<longrightarrow> frames h1 = [] \<and> frames h2 = [])) \<and>
         currentTime (state e2) \<le> currentTime (state e1) \<and> 0 \<le> currentTime (state e2) \<and>
         length (filter isComplete (evs1 @ evs2)) = (if currentTime (state e2) = 0 then 1 else 0) \<and>
         (currentTime (state e2) = 0 \<longrightarrow> \<not> isRunning (state e2))"
proof -
  have ops: "\<forall>x \<in> set ops. inRun x" using assms(5) by (simp add: list_all_iff)
  then have run: "\<forall>x \<in> set (OpUpdate # ops). inRun x" by simp
  have whole: "applyOps (OpUpdate # ops) (h, e) = ((h2, e2), evs1 @ evs2)"
    using assms(6,7) by simp
  have first: "applyOp OpUpdate (h, e) = ((h1, e1), evs1)" using assms(6) by simp
  have a: "currentTime (state e1) \<le> currentTime (state e) \<and> 0 \<le> currentTime (state e1) \<and>
         (currentTime (state e1) = 0 \<longrightarrow>
            \<not> isRunning (state e1) \<and> evs1 = [EvComplete Countdown 0] \<and>
            nextHandle h1 = nextHandle h \<and> set (frames h1) \<subseteq> set (frames h) \<and>
            (\<forall>i. animationFrameId e = Some i \<and> 0 < i \<longrightarrow>
                 i \<notin> set (frames h1) \<and> animationFrameId e1 = None))"
    by (rule update_countdown_step [OF assms(1,2,4,6)])
  have b: "0 \<le> currentTime (state e2) \<and>
         length (filter isComplete (evs1 @ evs2)) = (if currentTime (state e2) = 0 then 1 else 0) \<and>
         (currentTime (state e2) = 0 \<longrightarrow> \<not> isRunning (state e2))"
    using countdown_applyOps [of "(h, e)" "OpUpdate # ops"] assms(1,2) run whole
    by (simp del: applyOps.simps applyOp.simps)
  have fin: "finished (h1, e1)" if "currentTime (state e1) = 0"
    using countdown_applyOp [of "(h, e)" OpUpdate] assms(1,2) first that by simp
  have c: "currentTime (state e2) \<le> currentTime (state e1)"
  proof (cases "currentTime (state e1) = 0")
    case True
    with finished_applyOps [of "(h1, e1)" ops] fin ops assms(7) show ?thesis
      by (simp add: finished_def)
  next
    case False
    with a have pos: "0 < currentTime (state e1)" by simp
    with countdown_applyOp [of "(h, e)" OpUpdate] assms(1,2) first
    have m: "mode (state e1) = Countdown" by (auto simp: finished_def)
    from countdown_applyOps [of "(h1, e1)" ops] m pos ops assms(7) show ?thesis by simp
  qed
  have d: "nextHandle h2 = nextHandle h1 \<and> set (frames h2) \<subseteq> set (frames h1)"
    if "currentTime (state e1) = 0"
    using finished_host_applyOps [OF fin [OF that] ops] assms(7) by simp
  have f: "frames h1 = [] \<and> frames h2 = []"
    if z: "currentTime (state e1) = 0" and inv: "frameInv (h, e)"
  proof -
    have "frames h1 = []"
      by (rule update_countdown_clear [OF assms(1,2,4,6) z inv])
    with d [OF z] show ?thesis by simp
  qed
  from a b c d f show ?thesis by blast
qed

theorem countdown_update_run_witness:
  "mode (state runningCountdown) = Countdown \<and> 0 < currentTime (state runningCountdown) \<and>
   isRunning (state runningCountdown) \<and> frameInv (lateHost, runningCountdown) \<and>
   UPDATE_INTERVAL \<le> clock lateHost - lastUpdateTime runningCountdown \<and>
   list_all inRun [OpAdvance 200, OpFrame, OpStart, OpUpdate] \<and>
   currentTime (state (snd (fst (update (lateHost, runningCountdown))))) = 0 \<and>
   \<not> isRunning (state (snd (fst (update (lateHost, runningCountdown))))) \<and>
   frames (fst (fst (update (lateHost, runningCountdown)))) = [] \<and>
   nextHandle (fst (fst (update (lateHost, runningCountdown)))) = nextHandle lateHost \<and>
   frames (fst (fst (applyOps [OpAdvance 200, OpFrame, OpStart, OpUpdate]
             (fst (update (lateHost, runningCountdown)))))) = [] \<and>
   nextHandle (fst (fst (applyOps [OpAdvance 200, OpFrame, OpStart, OpUpdate]
             (fst (update (lateHost, runningCountdown)))))) = nextHandle lateHost \<and>
   length (filter isComplete
     (snd (update (lateHost, runningCountdown)) @
      snd (applyOps [OpAdvance 200, OpFrame, OpStart, OpUpdate]
             (fst (update (lateHost, runningCountdown)))))) = 1 \<and>
   \<not> frameInv directlyUpdated \<and>
   nextHandle (fst (fst (update directlyUpdated))) = nextHandle (fst directlyUpdated) \<and>
   nextHandle (fst (fst (applyOps [OpFrame, OpStart, OpUpdate] (fst (update directlyUpdated))))) =
     nextHandle (fst directlyUpdated) \<and>
   length (filter isComplete
     (snd (update directlyUpdated) @
      snd (applyOps [OpFrame, OpStart, OpUpdate] (fst (update directlyUpdated))))) = 1"
proof -
  obtain h e where w: "directlyUpdated = (h, e)" by (cases directlyUpdated)
  obtain h1 e1 evs1 where upd': "update (h, e) = ((h1, e1), evs1)" by (metis surj_pair)
  obtain h2' e2' evs2' where rest': "applyOps [OpFrame, OpStart, OpUpdate] (h1, e1) = ((h2', e2'), evs2')"
    by (metis surj_pair)
  have hyps': "mode (state e) = Countdown" "0 < currentTime (state e)" "isRunning (state e)"
    "UPDATE_INTERVAL \<le> clock h - lastUpdateTime e" "list_all inRun [OpFrame, OpStart, OpUpdate]"
    using w by (auto simp: directlyUpdated_eq UPDATE_INTERVAL_def)
  have ninv: "\<not> frameInv directlyUpdated"
    by (simp add: directlyUpdated_eq frameInv_def)
  have z: "currentTime (state e1) = 0"
    using w upd' by (auto simp: directlyUpdated_eq UPDATE_INTERVAL_def host_defs)
  from countdown_update_run [OF hyps' upd' rest'] z
  have stale: "nextHandle h1 = nextHandle h" "nextHandle h2' = nextHandle h"
    "length (filter isComplete (evs1 @ evs2')) = 1"
    by auto
  have late:
    "nextHandle (fst (fst (update directlyUpdated))) = nextHandle (fst directlyUpdated)"
    "nextHandle (fst (fst (applyOps [OpFrame, OpStart, OpUpdate] (fst (update directlyUpdated))))) =
       nextHandle (fst directlyUpdated)"
    "length (filter isComplete
       (snd (update directlyUpdated) @
        snd (applyOps [OpFrame, OpStart, OpUpdate] (fst (update directlyUpdated))))) = 1"
    unfolding w using stale upd' rest'
    by (simp_all del: update.simps applyOps.simps)
  have hyps: "mode (state runningCountdown) = Countdown" "0 < currentTime (state runningCountdown)"
    "isRunning (state runningCountdown)"
    "UPDATE_INTERVAL \<le> clock lateHost - lastUpdateTime runningCountdown"
    "list_all inRun [OpAdvance 200, OpFrame, OpStart, OpUpdate]"
    by (simp_all add: runningCountdown_def lateHost_def UPDATE_INTERVAL_def)
  have inv: "frameInv (lateHost, runningCountdown)"
    by (simp add: runningCountdown_def lateHost_def frameInv_def)
  have upd: "update (lateHost, runningCountdown) =
      ((lateHost, runningCountdown\<lparr>state := (state runningCountdown)
          \<lparr>currentTime := 0, isRunning := False\<rparr>, animationFrameId := None\<rparr>),
       [EvComplete Countdown 0])"
    by (simp add: runningCountdown_def lateHost_def UPDATE_INTERVAL_def host_defs)
  obtain h2 e2 evs2 where rest:
    "applyOps [OpAdvance 200, OpFrame, OpStart, OpUpdate]
       (lateHost, runningCountdown\<lparr>state := (state runningCountdown)
          \<lparr>currentTime := 0, isRunning := False\<rparr>, animationFrameId := None\<rparr>)
     = ((h2, e2), evs2)"
    by (metis surj_pair)
  have fin: "currentTime (state e2) = 0"
    using rest
    by (auto simp: runningCountdown_def lateHost_def UPDATE_INTERVAL_def host_defs)
  from countdown_update_run [OF hyps upd rest] fin inv
  have "length (filter isComplete ([EvComplete Countdown 0] @ evs2)) = 1"
    "frames h2 = []" "nextHandle h2 = nextHandle lateHost"
    by simp_all
  moreover have "frames lateHost = []"
    by (simp add: lateHost_def)
  ultimately show ?thesis using hyps inv upd rest ninv late
    by (simp del: update.simps applyOps.simps)
qed

subsection \<open>C2: running and paused exclude each other\<close>

text \<open>
  Claim C2. After every sequence of engine operations (setMode, setTargetTime, start,
  pause, resume, reset, update, destroy, frames run by the host and time passing) applied
  to a new engine, \<open>isRunning\<close> and \<open>isPaused\<close> are not both true. The sequence is
  arbitrary, so this holds after each of its operations.
\<close>

theorem isRunning_isPaused_exclusive:
  "\<not> (isRunning (state (snd (fst (applyOps ops (h, newTimerEngine))))) \<and>
      isPaused (state (snd (fst (applyOps ops (h, newTimerEngine))))))"
  using flagsOk_applyOps [OF flagsOk_new, of ops h] by (simp add: flagsOk_def)

theorem isRunning_isPaused_exclusive_witness:
  "isPaused (state (snd (fst (applyOps
       [OpSetMode ''stopwatch'', OpStart, OpAdvance 150, OpFrame, OpPause]
       (freshHost, newTimerEngine))))) \<and>
   \<not> isRunning (state (snd (fst (applyOps
       [OpSetMode ''stopwatch'', OpStart, OpAdvance 150, OpFrame, OpPause]
       (freshHost, newTimerEngine)))))"
proof -
  have "isPaused (state (snd (fst (applyOps
       [OpSetMode ''stopwatch'', OpStart, OpAdvance 150, OpFrame, OpPause]
       (freshHost, newTimerEngine)))))"
    by (simp add: freshHost_def newTimerEngine_def host_defs UPDATE_INTERVAL_def
          MAX_DURATION_def)
  with isRunning_isPaused_exclusive
         [of "[OpSetMode ''stopwatch'', OpStart, OpAdvance 150, OpFrame, OpPause]" freshHost]
  show ?thesis by (simp del: applyOps.simps)
qed

subsection \<open>C7: the events of a mode switch while running\<close>

text \<open>
  Claim C7 as stated: a call of \<open>setMode\<close> with a valid mode while the engine runs emits
  pause, then modeChanged, then reset. It fails on a stopwatch that has just been
  started: \<open>setMode('countdown')\<close> emits pause, reset, modeChanged.
\<close>

theorem setMode_event_order_counterexample:
  "isRunning (state (snd runningStopwatch)) \<and>
   modeOfString ''countdown'' = Some Countdown \<and>
   emitted (setMode ''countdown'' runningStopwatch) =
     [EvPause 0 Stopwatch, EvReset Countdown 300000 False, EvModeChanged Countdown True] \<and>
   map eventName (emitted (setMode ''countdown'' runningStopwatch)) \<noteq>
     [''pause'', ''modeChanged'', ''reset'']"
  by (simp add: runningStopwatch_def freshHost_def newTimerEngine_def host_defs emitted_def)

text \<open>
  Claim C7 as amended. For every engine reached from a new one that is running, a call
  of \<open>setMode\<close> with a valid mode succeeds and emits exactly three events, each once:
  pause (with the time and mode before the switch), then reset (with the new mode, the
  restored time and \<open>wasRunning = false\<close>, the pause having stopped the timer), then
  modeChanged (with \<open>wasRunning = true\<close>).
\<close>

theorem setMode_running_events:
  assumes "w = fst (applyOps ops (h, newTimerEngine))"
    and "isRunning (state (snd w))"
    and "modeOfString m = Some md"
  shows "(case setMode m w of Inl err \<Rightarrow> False | Inr r \<Rightarrow> True) \<and>
         emitted (setMode m w) =
           [EvPause (currentTime (state (snd w))) (mode (state (snd w))),
            EvReset md (if md = Countdown then targetTime (state (snd w)) else 0) False,
            EvModeChanged md True] \<and>
         map eventName (emitted (setMode m w)) = [''pause'', ''reset'', ''modeChanged'']"
proof -
  have "flagsOk w" using assms(1) flagsOk_applyOps [OF flagsOk_new, of ops h] by simp
  with assms(2) have np: "\<not> isPaused (state (snd w))" by (simp add: flagsOk_def)
  obtain h0 e0 where w: "w = (h0, e0)" by (cases w)
  show ?thesis using assms(2,3) np unfolding w
    by (cases md)
       (auto simp: emitted_def host_defs simp del: modeOfString.simps
             split: option.splits prod.splits)
qed

theorem setMode_running_events_witness:
  "runningStopwatch = fst (applyOps [OpSetMode ''stopwatch'', OpStart] (freshHost, newTimerEngine)) \<and>
   isRunning (state (snd runningStopwatch)) \<and>
   modeOfString ''countdown'' = Some Countdown \<and>
   map eventName (emitted (setMode ''countdown'' runningStopwatch)) =
     [''pause'', ''reset'', ''modeChanged'']"
proof -
  have a: "runningStopwatch =
      fst (applyOps [OpSetMode ''stopwatch'', OpStart] (freshHost, newTimerEngine))"
    by (simp only: runningStopwatch_def)
  have b: "isRunning (state (snd runningStopwatch))"
    by (simp add: runningStopwatch_def freshHost_def newTimerEngine_def host_defs)
  have c: "modeOfString ''countdown'' = Some Countdown" by simp
  from setMode_running_events [OF a b c] a b c show ?thesis
    by (simp del: modeOfString.simps applyOps.simps setMode.simps)
qed

subsection \<open>Digits and decimal numerals\<close>

lemma below_ten: "n < 10 \<Longrightarrow> n \<in> {0, 1, 2, 3, 4, 5, 6, 7, 8, 9 :: nat}"
  by auto

lemma digitChar_isDigit: "n < 10 \<Longrightarrow> isDigit (digitChar n)"
  by (drule below_ten) (auto simp: digitChar_def isDigit_def)

lemma digitVal_digitChar: "n < 10 \<Longrightarrow> digitVal (digitChar n) = n"
  by (drule below_ten) (auto simp: digitChar_def digitVal_def)

lemma digitChar_inj: "a < 10 \<Longrightarrow> b < 10 \<Longrightarrow> digitChar a = digitChar b \<Longrightarrow> a = b"
  using digitVal_digitChar by metis

lemma isDigit_not_special:
  "isDigit c \<Longrightarrow> c \<noteq> CHR ''-'' \<and> c \<noteq> CHR '':'' \<and> \<not> isSpace c"
  by (auto simp: isDigit_def isSpace_def)

lemma natToString_small: "n < 10 \<Longrightarrow> natToString n = [digitChar n]"
  by (simp add: natToString.simps)

lemma natToString_large:
  "\<not> n < 10 \<Longrightarrow> natToString n = natToString (n div 10) @ [digitChar (n mod 10)]"
  by (subst natToString.simps) simp

lemma natToString_digits: "list_all isDigit (natToString n)"
proof (induction n rule: natToString.induct)
  case (1 n)
  show ?case
  proof (cases "n < 10")
    case True
    then show ?thesis by (simp add: natToString_small digitChar_isDigit)
  next
    case False
    with 1 show ?thesis by (simp add: natToString_large digitChar_isDigit)
  qed
qed

lemma natToString_nonempty: "natToString n \<noteq> []"
  by (cases "n < 10") (simp_all add: natToString_small natToString_large)

lemma natToString_inj: "natToString n = natToString m \<Longrightarrow> n = m"
proof (induction n arbitrary: m rule: natToString.induct)
  case (1 n)
  show ?case
  proof (cases "n < 10")
    case n: True
    show ?thesis
    proof (cases "m < 10")
      case True
      with n 1(2) show ?thesis by (simp add: natToString_small digitChar_inj)
    next
      case False
      with n 1(2) natToString_nonempty [of "m div 10"] show ?thesis
        by (simp add: natToString_small natToString_large)
    qed
  next
    case n: False
    show ?thesis
    proof (cases "m < 10")
      case True
      with n 1(2) natToString_nonempty [of "n div 10"] show ?thesis
        by (simp add: natToString_small natToString_large)
    next
      case False
      with n 1(2) have eq: "natToString (n div 10) = natToString (m div 10)"
        and d: "digitChar (n mod 10) = digitChar (m mod 10)"
        by (simp_all add: natToString_large)
      from 1(1) [OF n eq] have "n div 10 = m div 10" .
      moreover from d have "n mod 10 = m mod 10" by (simp add: digitChar_inj)
      ultimately show ?thesis by (metis div_mult_mod_eq)
    qed
  qed
qed

lemma pad2_natToString:
  "n < 100 \<Longrightarrow> padStart 2 CHR ''0'' (natToString n) = [digitChar (n div 10), digitChar (n mod 10)]"
proof (cases "n < 10")
  case True
  then show ?thesis by (simp add: natToString_small padStart_def digitChar_def)
next
  case False
  assume "n < 100"
  then have "n div 10 < 10" by simp
  with False show ?thesis by (simp add: natToString_large natToString_small padStart_def)
qed

lemma parseInt_two: "a < 10 \<Longrightarrow> b < 10 \<Longrightarrow> parseInt [digitChar a, digitChar b] = int (a * 10 + b)"
  by (simp add: parseInt_def digitVal_digitChar)

lemma parseInt_pad2: "n < 100 \<Longrightarrow> parseInt [digitChar (n div 10), digitChar (n mod 10)] = int n"
  using parseInt_two [of "n div 10" "n mod 10"] by simp

lemma twoDigits_digits:
  "a < 10 \<Longrightarrow> b < 10 \<Longrightarrow> twoDigits (digitChar a # digitChar b # r) = Some ([digitChar a, digitChar b], r)"
  by (simp add: digitChar_isDigit)

lemma trim_digits_ends:
  "isDigit a \<Longrightarrow> isDigit z \<Longrightarrow> trim (a # s @ [z]) = a # s @ [z]"
  by (simp add: trim_def isDigit_not_special)

subsection \<open>What formatTime writes and parseTime reads\<close>

lemma intToString_nat: "intToString (int n) = natToString n"
  by (simp add: intToString_def)

lemma pad2_int: "n < 100 \<Longrightarrow> padStart 2 CHR ''0'' (intToString (int n)) = twoDigitChars n"
  by (simp add: intToString_nat pad2_natToString twoDigitChars_def)

lemma renderTime_seconds:
  "renderTime (int k * 1000) False False False True =
     (if 0 < k div 3600
      then padStart 2 CHR ''0'' (natToString (k div 3600)) @ '':'' @
           twoDigitChars (k mod 3600 div 60) @ '':'' @ twoDigitChars (k mod 60)
      else twoDigitChars (k mod 3600 div 60) @ '':'' @ twoDigitChars (k mod 60))"
proof -
  define H M S where "H = k div 3600" and "M = k mod 3600 div 60" and "S = k mod 60"
  have t: "int k * 1000 div 1000 = int k" by simp
  have h: "int k div 3600 = int H" by (simp add: H_def zdiv_int)
  have m: "jsRem (int k) 3600 div 60 = int M"
    by (simp add: M_def jsRem_def zdiv_int zmod_int)
  have s: "jsRem (int k) 60 = int S" by (simp add: S_def jsRem_def zmod_int)
  have m100: "M < 100" by (simp add: M_def less_mult_imp_div_less)
  have s100: "S < 100" unfolding S_def
    by (rule less_trans [of _ 60]) simp_all
  have "renderTime (int k * 1000) False False False True =
     (if 0 < H
      then padStart 2 CHR ''0'' (natToString H) @ '':'' @ twoDigitChars M @ '':'' @ twoDigitChars S
      else twoDigitChars M @ '':'' @ twoDigitChars S)"
    unfolding renderTime_def formatComponents_def Let_def t h m s
    using pad2_int [OF m100] pad2_int [OF s100]
    by (simp add: intToString_nat)
  then show ?thesis by (simp only: H_def M_def S_def)
qed

lemma twoDigitChars_props:
  assumes "n < 100"
  shows "twoDigits (twoDigitChars n @ r) = Some (twoDigitChars n, r)"
    and "parseInt (twoDigitChars n) = int n"
    and "list_all isDigit (twoDigitChars n)"
proof -
  from assms have a: "n div 10 < 10" and b: "n mod 10 < 10" by simp_all
  show "twoDigits (twoDigitChars n @ r) = Some (twoDigitChars n, r)"
    using twoDigits_digits [OF a b] by (simp add: twoDigitChars_def)
  show "parseInt (twoDigitChars n) = int n"
    using parseInt_pad2 [OF assms] by (simp add: twoDigitChars_def)
  show "list_all isDigit (twoDigitChars n)"
    using a b by (simp add: twoDigitChars_def digitChar_isDigit)
qed

lemma colon_not_digit: "\<not> isDigit CHR '':''"
  by (simp add: isDigit_def)

text \<open>Parsing \<open>MM:SS\<close> as \<^verbatim>\<open>formatTime\<close> writes it.\<close>

lemma parse_mm_ss:
  assumes "m < 100" "s < 60"
  shows "parseTimeString (twoDigitChars m @ '':'' @ twoDigitChars s) = Inr ((int m * 60 + int s) * 1000)"
proof -
  from assms have s100: "s < 100" by simp
  have tr: "trim (twoDigitChars m @ '':'' @ twoDigitChars s) =
            twoDigitChars m @ '':'' @ twoDigitChars s"
    using trim_digits_ends [of "digitChar (m div 10)" "digitChar (s mod 10)"
            "digitChar (m mod 10) # CHR '':'' # [digitChar (s div 10)]"] assms
    by (simp add: twoDigitChars_def digitChar_isDigit)
  have cm: "colonMatch (twoDigitChars m @ '':'' @ twoDigitChars s) =
            Some (twoDigitChars m, twoDigitChars s, None)"
    using twoDigitChars_props(1) [OF assms(1), of "'':'' @ twoDigitChars s"]
          twoDigitChars_props(1) [OF s100, of "[]"]
    by (simp add: colonMatch_def colonRest_def)
  show ?thesis
    unfolding parseTimeString_def Let_def tr cm
    using assms
    by (simp add: twoDigitChars_props(2) [OF assms(1)] twoDigitChars_props(2) [OF s100])
qed

text \<open>Parsing \<open>HH:MM:SS\<close> as \<^verbatim>\<open>formatTime\<close> writes it.\<close>

lemma parse_hh_mm_ss:
  assumes "h < 100" "m < 60" "s < 60"
  shows "parseTimeString (twoDigitChars h @ '':'' @ twoDigitChars m @ '':'' @ twoDigitChars s) =
         Inr ((int h * 3600 + int m * 60 + int s) * 1000)"
proof -
  from assms have m100: "m < 100" and s100: "s < 100" by simp_all
  have tr: "trim (twoDigitChars h @ '':'' @ twoDigitChars m @ '':'' @ twoDigitChars s) =
            twoDigitChars h @ '':'' @ twoDigitChars m @ '':'' @ twoDigitChars s"
    using trim_digits_ends [of "digitChar (h div 10)" "digitChar (s mod 10)"
            "digitChar (h mod 10) # CHR '':'' # twoDigitChars m @ CHR '':'' # [digitChar (s div 10)]"]
          assms
    by (simp add: twoDigitChars_def digitChar_isDigit)
  have cm: "colonMatch (twoDigitChars h @ '':'' @ twoDigitChars m @ '':'' @ twoDigitChars s) =
            Some (twoDigitChars h, twoDigitChars m, Some (twoDigitChars s))"
    using twoDigitChars_props(1) [OF assms(1), of "'':'' @ twoDigitChars m @ '':'' @ twoDigitChars s"]
          twoDigitChars_props(1) [OF m100, of "'':'' @ twoDigitChars s"]
          twoDigitChars_props(1) [OF s100, of "[]"]
    by (simp add: colonMatch_def colonRest_def)
  show ?thesis
    unfolding parseTimeString_def Let_def tr cm
    using assms
    by (simp add: twoDigitChars_props(2) [OF assms(1)] twoDigitChars_props(2) [OF m100]
          twoDigitChars_props(2) [OF s100])
qed

lemma roundtrip_seconds:
  assumes "k \<le> 86400"
  shows "parseTimeString (renderTime (int k * 1000) False False False True) = Inr (int k * 1000)"
proof -
  have m: "k mod 3600 div 60 < 60" by (simp add: less_mult_imp_div_less)
  have s: "k mod 60 < 60" by simp
  have sum: "int (k div 3600) * 3600 + int (k mod 3600 div 60) * 60 + int (k mod 60) = int k"
  proof -
    have "k div 3600 * 3600 + (k mod 3600 div 60 * 60 + k mod 3600 mod 60) = k" by simp
    moreover have "k mod 3600 mod 60 = k mod 60" by (simp add: mod_mod_cancel)
    ultimately have "k div 3600 * 3600 + k mod 3600 div 60 * 60 + k mod 60 = k" by simp
    then have "int (k div 3600 * 3600 + k mod 3600 div 60 * 60 + k mod 60) = int k" by simp
    then show ?thesis by (simp del: of_nat_div of_nat_mod)
  qed
  show ?thesis
  proof (cases "0 < k div 3600")
    case True
    from assms have h: "k div 3600 < 100" by simp
    have "renderTime (int k * 1000) False False False True =
          twoDigitChars (k div 3600) @ '':'' @ twoDigitChars (k mod 3600 div 60) @ '':'' @
          twoDigitChars (k mod 60)"
      using True by (simp add: renderTime_seconds pad2_natToString [OF h] twoDigitChars_def)
    then show ?thesis using parse_hh_mm_ss [OF h m s] sum by simp
  next
    case False
    then have z: "k div 3600 = 0" by simp
    have m100: "k mod 3600 div 60 < 100" using m by simp
    have "renderTime (int k * 1000) False False False True =
          twoDigitChars (k mod 3600 div 60) @ '':'' @ twoDigitChars (k mod 60)"
      using False by (simp add: renderTime_seconds)
    then show ?thesis using parse_mm_ss [OF m100 s] sum z by simp
  qed
qed

subsection \<open>The cache of the formatter\<close>

lemma digits_dash_split:
  "list_all isDigit xs \<Longrightarrow> list_all isDigit ys \<Longrightarrow>
     xs @ CHR ''-'' # r1 = ys @ CHR ''-'' # r2 \<Longrightarrow> xs = ys \<and> r1 = r2"
proof (induction xs arbitrary: ys)
  case Nil
  then show ?case using isDigit_not_special by (cases ys) auto
next
  case (Cons x xs)
  then show ?case using isDigit_not_special by (cases ys) auto
qed

lemma joinWith_nonempty: "x \<noteq> [] \<Longrightarrow> joinWith sep (x # xs) \<noteq> []"
  by (cases xs) auto

lemma jsonStringify_braces: "jsonStringify options = ''{}'' \<Longrightarrow> options = []"
proof (cases options)
  case Nil
  then show ?thesis by simp
next
  case (Cons p ps)
  obtain k b where p: "p = (k, b)" by (cases p)
  assume eq: "jsonStringify options = ''{}''"
  have "joinWith '',''
      (([CHR 0x22] @ optionName k @ [CHR 0x22] @ '':'' @ (if b then ''true'' else ''false'')) #
       map (\<lambda>(k, b). [CHR 0x22] @ optionName k @ [CHR 0x22] @ '':'' @
                       (if b then ''true'' else ''false'')) ps) \<noteq> []"
    by (rule joinWith_nonempty) simp
  with eq Cons p show ?thesis by (simp add: jsonStringify_def)
qed

lemma set_mapSet: "set (mapSet k v c) \<subseteq> insert (k, v) (set c)"
  by (induction c) auto

lemma natToString_startsWithDigit: "startsWithDigit (natToString n @ r)"
proof -
  obtain c cs where "natToString n = c # cs"
    using natToString_nonempty [of n] by (cases "natToString n") auto
  moreover from this natToString_digits [of n] have "isDigit c" by simp
  ultimately show ?thesis by (simp add: startsWithDigit_def)
qed

lemma nonfinite_key:
  assumes "c = CHR ''N'' \<or> c = CHR ''I''"
  shows "c # r \<noteq> natToString n @ r'"
proof
  assume eq: "c # r = natToString n @ r'"
  have "startsWithDigit (c # r)" unfolding eq by (rule natToString_startsWithDigit)
  then have "isDigit c" by (simp add: startsWithDigit_def)
  with assms show False by (auto simp: isDigit_def)
qed

lemma cacheOk_cacheFormatted:
  assumes "cacheOk tf"
    and "\<forall>n. key = natToString n @ ''-{}'' \<longrightarrow> val = renderTime (int n) False False False True"
  shows "cacheOk (cacheFormatted key val tf)"
proof -
  define c where "c = (if length (formatCache tf) \<ge> maxCacheSize tf
               then (case formatCache tf of
                       [] \<Rightarrow> []
                     | p # ps \<Rightarrow> filter (\<lambda>q. fst q \<noteq> fst p) ps)
               else formatCache tf)"
  have "set c \<subseteq> set (formatCache tf)"
  proof (cases "formatCache tf")
    case Nil
    then show ?thesis by (simp add: c_def)
  next
    case (Cons p ps)
    then show ?thesis by (auto simp: c_def)
  qed
  moreover have "formatCache (cacheFormatted key val tf) = mapSet key val c"
    by (simp add: cacheFormatted_def c_def)
  ultimately have sub:
    "set (formatCache (cacheFormatted key val tf)) \<subseteq> insert (key, val) (set (formatCache tf))"
    using set_mapSet [of key val c] by auto
  show ?thesis
    unfolding cacheOk_def
  proof (intro ballI, clarify)
    fix k n
    assume "(natToString n @ ''-{}'', k) \<in> set (formatCache (cacheFormatted key val tf))"
    with sub have "(natToString n @ ''-{}'', k) = (key, val) \<or>
                   (natToString n @ ''-{}'', k) \<in> set (formatCache tf)" by auto
    then show "k = renderTime (int n) False False False True"
      using assms by (auto simp: cacheOk_def)
  qed
qed

lemma default_key:
  assumes "0 \<le> m"
    and "toStringJS (JNum m) @ ''-'' @ jsonStringify options = natToString n @ ''-{}''"
  shows "m = int n \<and> options = []"
proof -
  from assms have "natToString (nat m) @ CHR ''-'' # jsonStringify options =
                   natToString n @ CHR ''-'' # ''{}''"
    by (simp add: intToString_def)
  from digits_dash_split [OF natToString_digits natToString_digits this]
  have "natToString (nat m) = natToString n" and "jsonStringify options = ''{}''" by simp_all
  then show ?thesis using natToString_inj jsonStringify_braces assms(1) by fastforce
qed

lemma cacheOk_formatTime: "cacheOk tf \<Longrightarrow> cacheOk (snd (formatTime v options tf))"
proof (cases "map_of (formatCache tf) (toStringJS v @ ''-'' @ jsonStringify options)")
  case (Some cached)
  assume "cacheOk tf"
  with Some show ?thesis by (simp add: formatTime_def)
next
  case None
  assume ok: "cacheOk tf"
  show ?thesis
  proof (cases v)
    case (JNum m)
    show ?thesis
    proof (cases "m < 0")
      case True
      with None JNum ok show ?thesis by (simp add: formatTime_def)
    next
      case False
      then have m: "0 \<le> m" by simp
      have "\<forall>n. toStringJS (JNum m) @ ''-'' @ jsonStringify options = natToString n @ ''-{}'' \<longrightarrow>
              renderTime m (getOption ShowMilliseconds False options)
                (getOption ForceHours False options) (getOption Compact False options)
                (getOption ShowLeadingZero True options) =
              renderTime (int n) False False False True"
      proof (intro allI impI)
        fix n
        assume "toStringJS (JNum m) @ ''-'' @ jsonStringify options = natToString n @ ''-{}''"
        from default_key [OF m this] have "m = int n" and "options = []" by simp_all
        then show "renderTime m (getOption ShowMilliseconds False options)
                (getOption ForceHours False options) (getOption Compact False options)
                (getOption ShowLeadingZero True options) =
              renderTime (int n) False False False True"
          by (simp add: getOption_def)
      qed
      from cacheOk_cacheFormatted [OF ok this] None JNum False show ?thesis
        by (simp add: formatTime_def Let_def)
    qed
  next
    case JNaN
    have "\<forall>n. toStringJS JNaN @ ''-'' @ jsonStringify options = natToString n @ ''-{}'' \<longrightarrow>
            val = renderTime (int n) False False False True" for val
      by (simp add: nonfinite_key)
    from cacheOk_cacheFormatted [OF ok this] None JNaN show ?thesis
      by (simp add: formatTime_def Let_def)
  next
    case JInfinity
    have "\<forall>n. toStringJS JInfinity @ ''-'' @ jsonStringify options = natToString n @ ''-{}'' \<longrightarrow>
            val = renderTime (int n) False False False True" for val
      by (simp add: nonfinite_key)
    from cacheOk_cacheFormatted [OF ok this] None JInfinity show ?thesis
      by (simp add: formatTime_def Let_def)
  qed (use None ok in \<open>simp_all add: formatTime_def\<close>)
qed

lemma cacheOk_formatCalls: "cacheOk tf \<Longrightarrow> cacheOk (formatCalls calls tf)"
proof (induction calls arbitrary: tf)
  case Nil
  then show ?case by simp
next
  case (Cons c calls)
  obtain v options where c: "c = (v, options)" by (cases c)
  from Cons.prems have "cacheOk (snd (formatTime v options tf))" by (rule cacheOk_formatTime)
  then show ?case using Cons.IH c by simp
qed

lemma cacheOk_new: "cacheOk newTimeFormatter"
  by (simp add: cacheOk_def newTimeFormatter_def)

lemma formatTime_default:
  assumes "cacheOk tf"
  shows "fst (formatTime (JNum (int n)) [] tf) = renderTime (int n) False False False True"
proof (cases "map_of (formatCache tf) (natToString n @ ''-{}'')")
  case None
  then show ?thesis
    by (simp add: formatTime_def Let_def intToString_nat jsonStringify_def getOption_def)
next
  case (Some cached)
  then have "(natToString n @ ''-{}'', cached) \<in> set (formatCache tf)" by (rule map_of_SomeD)
  with assms have "cached = renderTime (int n) False False False True"
    by (auto simp: cacheOk_def)
  with Some show ?thesis
    by (simp add: formatTime_def Let_def intToString_nat jsonStringify_def)
qed

subsection \<open>C4: formatting and parsing whole seconds\<close>

text \<open>
  Claim C4. For every \<open>ms\<close> from 0 to 86400000 that is a multiple of 1000, and every
  formatter (a new one, after any calls of \<^verbatim>\<open>formatTime\<close> with any values and options),
  \<open>parseTime(formatTime(ms)) = ms\<close>, both with the default options.
\<close>

theorem format_parse_roundtrip:
  assumes "0 \<le> ms" and "ms \<le> 86400000" and "ms mod 1000 = 0"
  shows "parseTime (JStr (fst (formatTime (JNum ms) [] (formatCalls calls newTimeFormatter)))) = Inr ms"
proof -
  define k where "k = nat (ms div 1000)"
  from assms have ms: "ms = int k * 1000" by (auto simp: k_def)
  from assms have k: "k \<le> 86400" by (simp add: k_def)
  have "cacheOk (formatCalls calls newTimeFormatter)"
    by (rule cacheOk_formatCalls [OF cacheOk_new])
  then have "fst (formatTime (JNum (int (k * 1000))) [] (formatCalls calls newTimeFormatter)) =
             renderTime (int (k * 1000)) False False False True"
    by (rule formatTime_default)
  then have "fst (formatTime (JNum ms) [] (formatCalls calls newTimeFormatter)) =
             renderTime (int k * 1000) False False False True"
    by (simp add: ms)
  then show ?thesis using roundtrip_seconds [OF k] by (simp add: parseTime_def ms)
qed

theorem format_parse_roundtrip_witness:
  "(0::int) \<le> 3661000 \<and> (3661000::int) \<le> 86400000 \<and> (3661000::int) mod 1000 = 0 \<and>
   fst (formatTime (JNum 3661000) [] newTimeFormatter) = ''01:01:01'' \<and>
   parseTime (JStr (fst (formatTime (JNum 3661000) []
     (formatCalls [(JNum 3661000, [(ForceHours, True)]), (JStr ''3661000'', [])] newTimeFormatter))))
   = Inr 3661000"
proof -
  have a: "(0::int) \<le> 3661000" "(3661000::int) \<le> 86400000" "(3661000::int) mod 1000 = 0"
    by simp_all
  have b: "fst (formatTime (JNum 3661000) [] newTimeFormatter) = ''01:01:01''"
    by (simp add: formatTime_def newTimeFormatter_def cacheFormatted_def renderTime_def
          formatComponents_def getOption_def jsonStringify_def jsRem_def intToString_def padStart_def
          natToString.simps digitChar_def Let_def)
  from format_parse_roundtrip [OF a,
      of "[(JNum 3661000, [(ForceHours, True)]), (JStr ''3661000'', [])]"] a b
  show ?thesis by (simp del: formatCalls.simps)
qed

subsection \<open>C6: what parseTime rejects\<close>

lemma digits2E:
  assumes "digits2 s"
  obtains a b where "s = [a, b]" "isDigit a" "isDigit b"
proof -
  from assms have "length s = 2" and d: "list_all isDigit s" by (simp_all add: digits2_def)
  then obtain a b where "s = [a, b]"
    by (cases s; cases "tl s") auto
  with d that show ?thesis by simp
qed

lemma digits12E:
  assumes "digits12 s"
  obtains (one) a where "s = [a]" "isDigit a"
    | (two) a b where "s = [a, b]" "isDigit a" "isDigit b"
proof -
  from assms have l: "length s = 1 \<or> length s = 2" and d: "list_all isDigit s"
    by (simp_all add: digits12_def)
  from l show ?thesis
  proof
    assume "length s = 1"
    then obtain a where "s = [a]" by (cases s) auto
    with d one show ?thesis by simp
  next
    assume "length s = 2"
    then obtain a b where "s = [a, b]" by (cases s; cases "tl s") auto
    with d two show ?thesis by simp
  qed
qed

lemma trim_id:
  assumes "s \<noteq> []" "\<not> isSpace (hd s)" "\<not> isSpace (last s)"
  shows "trim s = s"
proof -
  have "hd (rev s) = last s" using assms(1) by (simp add: hd_rev)
  then have "dropWhile isSpace (rev s) = rev s"
    using assms(3) dropWhile_eq_self_iff [of isSpace "rev s"] by simp
  moreover have "dropWhile isSpace s = s"
    using assms(2) dropWhile_eq_self_iff [of isSpace s] by simp
  ultimately show ?thesis by (simp add: trim_def)
qed

lemma trim_spaces:
  assumes "list_all isSpace s"
  shows "trim s = []"
proof -
  have "\<forall>x \<in> set (rev s). isSpace x" using assms by (simp add: list_all_iff)
  then have "dropWhile isSpace (rev s) = []" by (simp only: dropWhile_eq_Nil_conv)
  then show ?thesis by (simp only: trim_def rev.simps dropWhile.simps)
qed

lemma parse_three_fields:
  assumes "digits12 H" "digits2 M" "digits2 S"
  shows "parseTimeString (H @ '':'' @ M @ '':'' @ S) =
         (if 60 \<le> parseInt M \<or> 60 \<le> parseInt S then Inl FormatMinutesOrSeconds
          else Inr ((parseInt H * 3600 + parseInt M * 60 + parseInt S) * 1000))"
proof -
  from assms(2) obtain c d where M: "M = [c, d]" and cd: "isDigit c" "isDigit d"
    by (rule digits2E)
  from assms(3) obtain e f where S: "S = [e, f]" and ef: "isDigit e" "isDigit f"
    by (rule digits2E)
  from assms(1) show ?thesis
  proof (cases rule: digits12E)
    case (one a)
    have "trim (H @ '':'' @ M @ '':'' @ S) = H @ '':'' @ M @ '':'' @ S"
      using one ef isDigit_not_special by (intro trim_id) (simp_all add: M S)
    moreover have "colonMatch (H @ '':'' @ M @ '':'' @ S) = Some (H, M, Some S)"
      using one cd ef by (simp add: M S colonMatch_def colonRest_def colon_not_digit)
    ultimately show ?thesis by (simp add: parseTimeString_def one)
  next
    case (two a b)
    have "trim (H @ '':'' @ M @ '':'' @ S) = H @ '':'' @ M @ '':'' @ S"
      using two ef isDigit_not_special by (intro trim_id) (simp_all add: M S)
    moreover have "colonMatch (H @ '':'' @ M @ '':'' @ S) = Some (H, M, Some S)"
      using two cd ef by (simp add: M S colonMatch_def colonRest_def)
    ultimately show ?thesis by (simp add: parseTimeString_def two)
  qed
qed

lemma parse_two_fields:
  assumes "digits12 M" "digits2 S"
  shows "parseTimeString (M @ '':'' @ S) =
         (if 60 \<le> parseInt S then Inl FormatSeconds
          else Inr ((parseInt M * 60 + parseInt S) * 1000))"
proof -
  from assms(2) obtain e f where S: "S = [e, f]" and ef: "isDigit e" "isDigit f"
    by (rule digits2E)
  from assms(1) show ?thesis
  proof (cases rule: digits12E)
    case (one a)
    have "trim (M @ '':'' @ S) = M @ '':'' @ S"
      using one ef isDigit_not_special by (intro trim_id) (simp_all add: S)
    moreover have "colonMatch (M @ '':'' @ S) = Some (M, S, None)"
      using one ef by (simp add: S colonMatch_def colonRest_def colon_not_digit)
    ultimately show ?thesis by (simp add: parseTimeString_def one)
  next
    case (two a b)
    have "trim (M @ '':'' @ S) = M @ '':'' @ S"
      using two ef isDigit_not_special by (intro trim_id) (simp_all add: S)
    moreover have "colonMatch (M @ '':'' @ S) = Some (M, S, None)"
      using two ef by (simp add: S colonMatch_def colonRest_def)
    ultimately show ?thesis by (simp add: parseTimeString_def two)
  qed
qed

lemma unit_not_digit: "\<not> isDigit CHR ''m''" "\<not> isSpace CHR ''m''"
  by (simp_all add: isDigit_def isSpace_def)

lemma parse_compact_minutes:
  assumes "D \<noteq> []" "list_all isDigit D"
  shows "parseTimeString (D @ ''m'') = Inr (parseInt D * 60 * 1000)"
proof -
  from assms obtain a D' where D: "D = a # D'" and a: "isDigit a" and D': "list_all isDigit D'"
    by (cases D) auto
  have all: "\<forall>x \<in> set D. isDigit x" using assms(2) by (simp add: list_all_iff)
  have tr: "trim (D @ ''m'') = D @ ''m''"
    using a isDigit_not_special unit_not_digit by (intro trim_id) (simp_all add: D)
  have cm: "colonMatch (D @ ''m'') = None"
  proof (cases D')
    case Nil
    then show ?thesis using a
      by (simp add: D colonMatch_def colonRest_def unit_not_digit)
  next
    case (Cons b D'')
    with D' have b: "isDigit b" and rest: "list_all isDigit D''" by simp_all
    have "hd (D'' @ ''m'') \<noteq> CHR '':''"
      using rest colon_not_digit by (cases D'') auto
    then have "colonRest [a, b] (D'' @ ''m'') = None"
      by (cases "D'' @ ''m''") (simp_all add: colonRest_def)
    moreover have "colonRest [a] (b # D'' @ ''m'') = None"
      using b colon_not_digit by (auto simp: colonRest_def)
    ultimately show ?thesis using a b by (simp add: D Cons colonMatch_def)
  qed
  have tw: "takeWhile isDigit (D @ ''m'') = D" "dropWhile isDigit (D @ ''m'') = ''m''"
    using all unit_not_digit by (simp_all add: takeWhile_append2 dropWhile_append2)
  have "compactMatch (D @ ''m'') = Some (None, Some D, None)"
    using assms(1) by (simp add: compactMatch_def unitGroup_def tw)
  with tr cm assms(1) show ?thesis
    by (simp add: parseTimeString_def groupValue_def)
qed

text \<open>
  Claim C6 as stated: \<^verbatim>\<open>parseTime\<close> fails with an invalid-format error if a seconds or
  minutes component of the input is 60 or more. It fails on \<open>75:30\<close> and on \<open>90m\<close>,
  which parse to 75.5 and to 90 minutes.
\<close>

theorem parseTime_component_counterexample:
  "parseTime (JStr ''75:30'') = Inr 4530000 \<and> \<not> isInvalidFormat (parseTime (JStr ''75:30'')) \<and>
   parseTime (JStr ''90m'') = Inr 5400000 \<and> \<not> isInvalidFormat (parseTime (JStr ''90m''))"
  by (simp add: parseTime_def parseTimeString_def trim_def isSpace_def colonMatch_def
        colonRest_def isDigit_def parseInt_def digitVal_def compactMatch_def unitGroup_def
        groupValue_def isInvalidFormat_def)

text \<open>
  Claim C6 as amended. \<^verbatim>\<open>parseTime\<close> of a string returns 0 if the string is empty or
  white space. On \<open>H:MM:SS\<close> or \<open>HH:MM:SS\<close> it fails with an invalid-format error if the
  minutes or the seconds are 60 or more, and returns the time otherwise. On \<open>M:SS\<close> or
  \<open>MM:SS\<close> it fails with an invalid-format error if the seconds are 60 or more, and
  returns the time otherwise, whatever the minutes. On the compact form \<open>Dm\<close> it returns
  \<open>D\<close> minutes, whatever the number \<open>D\<close>. It fails with an invalid-format error if the
  trimmed string is not empty and matches none of the three patterns.
\<close>

theorem parseTime_rejections:
  "(list_all isSpace s \<longrightarrow> parseTime (JStr s) = Inr 0) \<and>
   (digits12 H \<and> digits2 M \<and> digits2 S \<longrightarrow>
      parseTime (JStr (H @ '':'' @ M @ '':'' @ S)) =
        (if 60 \<le> parseInt M \<or> 60 \<le> parseInt S then Inl FormatMinutesOrSeconds
         else Inr ((parseInt H * 3600 + parseInt M * 60 + parseInt S) * 1000))) \<and>
   (digits12 M' \<and> digits2 S' \<longrightarrow>
      parseTime (JStr (M' @ '':'' @ S')) =
        (if 60 \<le> parseInt S' then Inl FormatSeconds
         else Inr ((parseInt M' * 60 + parseInt S') * 1000))) \<and>
   (D \<noteq> [] \<and> list_all isDigit D \<longrightarrow> parseTime (JStr (D @ ''m'')) = Inr (parseInt D * 60 * 1000)) \<and>
   (trim u \<noteq> [] \<and> colonMatch (trim u) = None \<and> compactMatch (trim u) = None \<and>
    \<not> numberMatch (trim u) \<longrightarrow> parseTime (JStr u) = Inl FormatUnrecognised \<and>
                               isInvalidFormat (parseTime (JStr u)))"
  using parse_three_fields [of H M S] parse_two_fields [of M' S'] parse_compact_minutes [of D]
    trim_spaces [of s]
  by (simp add: parseTime_def parseTimeString_def isInvalidFormat_def)

theorem parseTime_rejections_witness:
  "parseTime (JStr ''  '') = Inr 0 \<and>
   parseTime (JStr ''01:05:60'') = Inl FormatMinutesOrSeconds \<and>
   parseTime (JStr ''12:60'') = Inl FormatSeconds \<and>
   parseTime (JStr ''75:30'') = Inr 4530000 \<and>
   parseTime (JStr ''90m'') = Inr 5400000 \<and>
   parseTime (JStr ''invalid'') = Inl FormatUnrecognised"
proof -
  have sp: "list_all isSpace ''  ''" by (simp add: isSpace_def)
  have d: "digits12 ''01''" "digits2 ''05''" "digits2 ''60''" "digits12 ''12''"
    "digits12 ''75''" "digits2 ''30''" "''90'' \<noteq> []" "list_all isDigit ''90''"
    by (simp_all add: digits12_def digits2_def isDigit_def)
  have p: "parseInt ''01'' = 1" "parseInt ''05'' = 5" "parseInt ''60'' = 60"
    "parseInt ''12'' = 12" "parseInt ''75'' = 75" "parseInt ''30'' = 30" "parseInt ''90'' = 90"
    by (simp_all add: parseInt_def digitVal_def)
  have n: "trim ''invalid'' \<noteq> []" "colonMatch (trim ''invalid'') = None"
    "compactMatch (trim ''invalid'') = None" "\<not> numberMatch (trim ''invalid'')"
    by (simp_all add: trim_def isSpace_def colonMatch_def colonRest_def isDigit_def
          compactMatch_def unitGroup_def numberMatch_def)
  from parseTime_rejections [of "''  ''" "''01''" "''05''" "''60''" "''12''" "''60''" "''90''" "''invalid''"]
       parseTime_rejections [of "''  ''" "''01''" "''05''" "''60''" "''75''" "''30''" "''90''" "''invalid''"]
       sp d p n
  show ?thesis by simp
qed

subsection \<open>C9: formatting a negative or non-numeric input\<close>













subsection \<open>C10: a mode switch to the current mode, and Stopwatch.start\<close>

lemma stopwatchListener_laps:
  "lapTimes (fst (stopwatchListener ev cb sw)) = lapTimes sw \<or>
   lapTimes (fst (stopwatchListener ev cb sw)) = []"
proof -
  have a: "lapTimes (fst (checkThresholdsFrom ths t sw)) = lapTimes sw" for ths t
    by (induction ths) (simp_all add: Let_def)
  have "lapTimes (fst (stopwatchOnTick ev sw)) = lapTimes sw"
    using a [of milestoneThresholds]
    by (auto simp: stopwatchOnTick_def stopwatchCheckMilestones_def Let_def split_beta
             split: option.splits)
  then show ?thesis by (cases cb) (simp_all add: onReset_def)
qed

lemma stopwatchListener_laps_empty:
  "lapTimes sw = [] \<Longrightarrow> lapTimes (fst (stopwatchListener ev cb sw)) = []"
  using stopwatchListener_laps [of ev cb sw] by auto

lemma stopwatchListeners_laps_empty:
  "lapTimes sw = [] \<Longrightarrow> lapTimes (fst (stopwatchListeners ev cbs sw)) = []"
proof (induction cbs arbitrary: sw)
  case Nil
  then show ?case by simp
next
  case (Cons cb cbs)
  from Cons.prems have "lapTimes (fst (stopwatchListener ev cb sw)) = []"
    by (rule stopwatchListener_laps_empty)
  from Cons.IH [OF this] show ?case by (simp add: split_beta)
qed

lemma stopwatchListeners_reset:
  "StopwatchOnReset \<in> set cbs \<Longrightarrow> lapTimes (fst (stopwatchListeners ev cbs sw)) = []"
proof (induction cbs arbitrary: sw)
  case Nil
  then show ?case by simp
next
  case (Cons cb cbs)
  show ?case
  proof (cases "cb = StopwatchOnReset")
    case True
    have "lapTimes (fst (stopwatchListener ev cb sw)) = []"
      using True by (simp add: onReset_def)
    from stopwatchListeners_laps_empty [OF this] show ?thesis by (simp add: split_beta)
  next
    case False
    with Cons.prems have "StopwatchOnReset \<in> set cbs" by simp
    from Cons.IH [OF this] show ?thesis by (simp add: split_beta)
  qed
qed

lemma stopwatchDispatch_laps_empty:
  "lapTimes sw = [] \<Longrightarrow> lapTimes (fst (stopwatchDispatch e evs sw)) = []"
proof (induction evs arbitrary: sw)
  case Nil
  then show ?case by simp
next
  case (Cons ev evs)
  from Cons.prems
  have "lapTimes (fst (stopwatchListeners ev (eventListeners e (eventName ev)) sw)) = []"
    by (rule stopwatchListeners_laps_empty)
  from Cons.IH [OF this] show ?case by (simp add: split_beta)
qed

lemma stopwatchDispatch_reset:
  assumes "StopwatchOnReset \<in> set (eventListeners e ''reset'')"
    and "''reset'' \<in> set (map eventName evs)"
  shows "lapTimes (fst (stopwatchDispatch e evs sw)) = []"
  using assms(2)
proof (induction evs arbitrary: sw)
  case Nil
  then show ?case by simp
next
  case (Cons ev evs)
  show ?case
  proof (cases "eventName ev = ''reset''")
    case True
    with assms(1)
    have "lapTimes (fst (stopwatchListeners ev (eventListeners e (eventName ev)) sw)) = []"
      by (simp add: stopwatchListeners_reset)
    from stopwatchDispatch_laps_empty [OF this] show ?thesis by (simp add: split_beta)
  next
    case False
    with Cons.prems have "''reset'' \<in> set (map eventName evs)" by simp
    from Cons.IH [OF this] show ?thesis by (simp add: split_beta)
  qed
qed

lemma setMode_listeners:
  "setMode m (h, e) = Inr ((h1, e1), evs) \<Longrightarrow> eventListeners e1 = eventListeners e"
  by (auto simp: host_defs split: option.splits if_splits prod.splits)

lemma start_listeners: "eventListeners (snd (fst (start (h, e)))) = eventListeners e"
  by (auto simp: host_defs split: option.splits if_splits prod.splits)

lemma setMode_stopwatch:
  "\<exists>h1 e1 w. setMode ''stopwatch'' (h, e) =
      Inr ((h1, e1), (if isRunning (state e) \<and> \<not> isPaused (state e)
                      then [EvPause (currentTime (state e)) (mode (state e))] else []) @
                     [EvReset Stopwatch 0 w, EvModeChanged Stopwatch (isRunning (state e))]) \<and>
      state e1 = (state e)\<lparr>mode := Stopwatch, isRunning := False, isPaused := False,
                            currentTime := 0\<rparr> \<and>
      eventListeners e1 = eventListeners e \<and> clock h1 = clock h"
  by (auto simp: host_defs split: option.splits if_splits prod.splits)

lemma stopwatchStart_paused:
  assumes "isPaused (state e)"
  shows "\<exists>h2 e2 sw2 calls w.
      stopwatchStart (h, e, sw) =
        ((h2, e2, sw2),
         [EvReset Stopwatch 0 w, EvModeChanged Stopwatch (isRunning (state e)),
          EvStart Stopwatch 0 (targetTime (state e))], calls) \<and>
      state e2 = (state e)\<lparr>mode := Stopwatch, isRunning := True, isPaused := False,
                            currentTime := 0, startTime := clock h\<rparr> \<and>
      (StopwatchOnReset \<in> set (eventListeners e ''reset'') \<longrightarrow> lapTimes sw2 = [])"
proof -
  from setMode_stopwatch [of h e] assms obtain h1 e1 w where
    sm: "setMode ''stopwatch'' (h, e) =
           Inr ((h1, e1), [EvReset Stopwatch 0 w, EvModeChanged Stopwatch (isRunning (state e))])"
    and st: "state e1 = (state e)\<lparr>mode := Stopwatch, isRunning := False, isPaused := False,
                                   currentTime := 0\<rparr>"
    and li: "eventListeners e1 = eventListeners e" and cl: "clock h1 = clock h"
    by auto
  define sw1 where "sw1 = fst (stopwatchDispatch e1
    [EvReset Stopwatch 0 w, EvModeChanged Stopwatch (isRunning (state e))] sw)"
  define calls1 where "calls1 = snd (stopwatchDispatch e1
    [EvReset Stopwatch 0 w, EvModeChanged Stopwatch (isRunning (state e))] sw)"
  have op1: "stopwatchOp (OpSetMode ''stopwatch'') (h, e, sw) =
      ((h1, e1, sw1), [EvReset Stopwatch 0 w, EvModeChanged Stopwatch (isRunning (state e))], calls1)"
    using sm by (simp add: stopwatchOp_def sw1_def calls1_def split_beta del: setMode.simps)
  obtain h2 e2 where s2: "start (h1, e1) =
      ((h2, e2), [EvStart Stopwatch 0 (targetTime (state e))])"
    and st2: "state e2 = (state e)\<lparr>mode := Stopwatch, isRunning := True, isPaused := False,
                                    currentTime := 0, startTime := clock h\<rparr>"
    and li2: "eventListeners e2 = eventListeners e1"
    using st cl by (auto simp: host_defs)
  define sw2 where "sw2 = fst (stopwatchDispatch e2 [EvStart Stopwatch 0 (targetTime (state e))] sw1)"
  define calls2 where "calls2 = snd (stopwatchDispatch e2 [EvStart Stopwatch 0 (targetTime (state e))] sw1)"
  have op2: "stopwatchOp OpStart (h1, e1, sw1) =
      ((h2, e2, sw2), [EvStart Stopwatch 0 (targetTime (state e))], calls2)"
    using s2 by (simp add: stopwatchOp_def sw2_def calls2_def split_beta del: start.simps)
  have whole: "stopwatchStart (h, e, sw) =
      ((h2, e2, sw2),
       [EvReset Stopwatch 0 w, EvModeChanged Stopwatch (isRunning (state e)),
        EvStart Stopwatch 0 (targetTime (state e))], calls1 @ calls2)"
    using op1 op2 by (simp add: stopwatchStart_def)
  have laps: "lapTimes sw2 = []" if "StopwatchOnReset \<in> set (eventListeners e ''reset'')"
  proof -
    from that li have "StopwatchOnReset \<in> set (eventListeners e1 ''reset'')" by simp
    then have "lapTimes sw1 = []"
      unfolding sw1_def by (rule stopwatchDispatch_reset) simp
    then show ?thesis
      unfolding sw2_def by (rule stopwatchDispatch_laps_empty)
  qed
  from whole st2 laps show ?thesis by blast
qed

text \<open>
  Claim C10. A call of \<open>setMode\<close> with the mode the engine is in succeeds and resets the
  engine: \<open>currentTime\<close> becomes the target time in countdown mode and 0 in stopwatch
  mode, and both flags become false. \<^verbatim>\<open>Stopwatch.start\<close> calls \<open>setMode('stopwatch')\<close>
  and then the engine's start, so that on a paused stopwatch with elapsed time it emits
  reset, modeChanged and start, and leaves the engine running from \<open>currentTime\<close> 0,
  with the clock reference at now; the laps are discarded with the elapsed time where
  the stopwatch listens for the reset.
\<close>

theorem setMode_same_mode_resets:
  "(modeOfString m = Some (mode (state e)) \<longrightarrow>
      (case setMode m (h, e) of
         Inl err \<Rightarrow> False
       | Inr (w1, evs) \<Rightarrow>
           state (snd w1) = (state e)\<lparr>isRunning := False, isPaused := False,
             currentTime := (if mode (state e) = Countdown then targetTime (state e) else 0)\<rparr>)) \<and>
   (mode (state es) = Stopwatch \<and> isPaused (state es) \<and> 0 < currentTime (state es) \<longrightarrow>
      state (engineOf (fst (stopwatchStart (hs, es, sw)))) =
        (state es)\<lparr>isRunning := True, isPaused := False, currentTime := 0,
                    startTime := clock hs\<rparr> \<and>
      map eventName (fst (snd (stopwatchStart (hs, es, sw)))) = [''reset'', ''modeChanged'', ''start''] \<and>
      (StopwatchOnReset \<in> set (eventListeners es ''reset'') \<longrightarrow>
         lapTimes (componentOf (fst (stopwatchStart (hs, es, sw)))) = []))"
proof (intro conjI impI)
  assume "modeOfString m = Some (mode (state e))"
  then show "case setMode m (h, e) of
         Inl err \<Rightarrow> False
       | Inr (w1, evs) \<Rightarrow>
           state (snd w1) = (state e)\<lparr>isRunning := False, isPaused := False,
             currentTime := (if mode (state e) = Countdown then targetTime (state e) else 0)\<rparr>"
    by (auto simp: host_defs simp del: modeOfString.simps split: option.splits prod.splits)
next
  assume a: "mode (state es) = Stopwatch \<and> isPaused (state es) \<and> 0 < currentTime (state es)"
  then have p: "isPaused (state es)" by simp
  from stopwatchStart_paused [OF p, of hs sw] a
  show "state (engineOf (fst (stopwatchStart (hs, es, sw)))) =
        (state es)\<lparr>isRunning := True, isPaused := False, currentTime := 0,
                    startTime := clock hs\<rparr>"
    by (auto simp: engineOf_def)
  from stopwatchStart_paused [OF p, of hs sw]
  show "map eventName (fst (snd (stopwatchStart (hs, es, sw)))) = [''reset'', ''modeChanged'', ''start'']"
    by auto
  assume "StopwatchOnReset \<in> set (eventListeners es ''reset'')"
  with stopwatchStart_paused [OF p, of hs sw]
  show "lapTimes (componentOf (fst (stopwatchStart (hs, es, sw)))) = []"
    by (auto simp: componentOf_def)
qed

lemma pausedWithLap_eval:
  "state (engineOf pausedWithLap) =
     \<lparr>mode = Stopwatch, isRunning = False, isPaused = True, currentTime = 12345,
      targetTime = 300000, startTime = 0\<rparr>"
  "eventListeners (engineOf pausedWithLap) ''reset'' = [StopwatchOnReset]"
  "map totalTime (lapTimes (componentOf pausedWithLap)) = [12345]"
  "map lapNumber (lapTimes (componentOf pausedWithLap)) = [1]"
  "map lapTime (lapTimes (componentOf pausedWithLap)) = [12345]"
  by (simp_all add: pausedWithLap_def pausedStopwatch_def recordLap_def newStopwatch_def
        newTimerEngine_def freshHost_def addEventListener_def stopwatchStart_def stopwatchOp_def
        host_defs engineOf_def componentOf_def onReset_def UPDATE_INTERVAL_def MAX_DURATION_def
        stopwatchOnTick_def stopwatchCheckMilestones_def milestoneThresholds_def
        isAtMilestone_def LEBRON_MILESTONES_def getProgress_def)

theorem setMode_same_mode_resets_witness:
  "modeOfString ''stopwatch'' = Some (mode (state (engineOf pausedWithLap))) \<and>
   isPaused (state (engineOf pausedWithLap)) \<and>
   currentTime (state (engineOf pausedWithLap)) = 12345 \<and>
   map totalTime (lapTimes (componentOf pausedWithLap)) = [12345] \<and>
   StopwatchOnReset \<in> set (eventListeners (engineOf pausedWithLap) ''reset'') \<and>
   currentTime (state (engineOf (fst (stopwatchStart
       (fst pausedWithLap, engineOf pausedWithLap, componentOf pausedWithLap))))) = 0 \<and>
   isRunning (state (engineOf (fst (stopwatchStart
       (fst pausedWithLap, engineOf pausedWithLap, componentOf pausedWithLap))))) \<and>
   lapTimes (componentOf (fst (stopwatchStart
       (fst pausedWithLap, engineOf pausedWithLap, componentOf pausedWithLap)))) = []"
  using setMode_same_mode_resets [of "''stopwatch''" "engineOf pausedWithLap" "fst pausedWithLap"
          "engineOf pausedWithLap" "fst pausedWithLap" "componentOf pausedWithLap"]
        pausedWithLap_eval
  by (simp del: setMode.simps)

lemma stopwatchListeners_laps:
  "lapTimes (fst (stopwatchListeners ev cbs sw)) = lapTimes sw \<or>
   lapTimes (fst (stopwatchListeners ev cbs sw)) = []"
proof (induction cbs arbitrary: sw)
  case Nil
  then show ?case by simp
next
  case (Cons cb cbs)
  from stopwatchListener_laps [of ev cb sw] Cons.IH [of "fst (stopwatchListener ev cb sw)"]
  show ?case by (auto simp: split_beta)
qed

lemma stopwatchDispatch_laps:
  "lapTimes (fst (stopwatchDispatch e evs sw)) = lapTimes sw \<or>
   lapTimes (fst (stopwatchDispatch e evs sw)) = []"
proof (induction evs arbitrary: sw)
  case Nil
  then show ?case by simp
next
  case (Cons ev evs)
  from stopwatchListeners_laps [of ev "eventListeners e (eventName ev)" sw]
    Cons.IH [of "fst (stopwatchListeners ev (eventListeners e (eventName ev)) sw)"]
  show ?case by (auto simp: split_beta)
qed

lemma reset_events:
  "map eventName (snd (reset (h, e))) = [''reset'']"
  "eventListeners (snd (fst (reset (h, e)))) = eventListeners e"
  by (auto simp: host_defs split: option.splits)

subsection \<open>C8: when the lap list grows and when it is emptied\<close>

text \<open>
  Claim C8 as stated: \<^verbatim>\<open>recordLap\<close> appends no lap when the engine is not running. It
  fails on a stopwatch that was paused at 12345 ms: the engine is not running, and
  \<^verbatim>\<open>recordLap\<close> returns the first lap and appends it.
\<close>

theorem recordLap_paused_counterexample:
  "\<not> isRunning (state (engineOf pausedStopwatch)) \<and>
   currentTime (state (engineOf pausedStopwatch)) = 12345 \<and>
   lapTimes (componentOf pausedStopwatch) = [] \<and>
   map lapNumber (lapTimes (componentOf (fst (snd (recordLap pausedStopwatch))))) = [1] \<and>
   map totalTime (lapTimes (componentOf (fst (snd (recordLap pausedStopwatch))))) = [12345]"
  by (simp add: pausedStopwatch_def recordLap_def newStopwatch_def
        newTimerEngine_def freshHost_def addEventListener_def stopwatchStart_def stopwatchOp_def
        host_defs engineOf_def componentOf_def onReset_def UPDATE_INTERVAL_def MAX_DURATION_def
        stopwatchOnTick_def stopwatchCheckMilestones_def milestoneThresholds_def
        isAtMilestone_def LEBRON_MILESTONES_def getProgress_def)

text \<open>
  Claim C8 as amended. \<^verbatim>\<open>recordLap\<close> looks at \<open>currentTime\<close> only. If it is 0, the call
  throws and the lap list is as before. Otherwise, running or not, the call appends one
  lap: its number is the length of the new list, its total time is \<open>currentTime\<close>, and
  its lap time is the difference to the total time of the lap before (to 0 for the first
  lap). The listeners of the stopwatch never add a lap, and where the stopwatch listens
  for the reset, the events of an operation that contain a reset leave the lap list
  empty; so does the engine's \<open>reset\<close>.
\<close>

theorem recordLap_and_reset:
  "(currentTime (state e) = 0 \<longrightarrow>
      recordLap (h, e, sw) = (Inl LapAtZero, (h, e, sw), [])) \<and>
   (currentTime (state e) \<noteq> 0 \<longrightarrow>
      lapTimes (componentOf (fst (snd (recordLap (h, e, sw))))) =
        lapTimes sw @
          [\<lparr>lapNumber = length (lapTimes sw) + 1,
            lapTime = currentTime (state e) -
                      (if lapTimes sw = [] then 0 else totalTime (last (lapTimes sw))),
            totalTime = currentTime (state e),
            timestamp = date h,
            formattedLapTime = engineFormatTime (currentTime (state e) -
                      (if lapTimes sw = [] then 0 else totalTime (last (lapTimes sw)))),
            formattedTotalTime = engineFormatTime (currentTime (state e))\<rparr>] \<and>
      fst (recordLap (h, e, sw)) = Inr (last (lapTimes (componentOf (fst (snd (recordLap (h, e, sw)))))))) \<and>
   (lapTimes (fst (stopwatchDispatch e evs sw)) = lapTimes sw \<or>
    lapTimes (fst (stopwatchDispatch e evs sw)) = []) \<and>
   (StopwatchOnReset \<in> set (eventListeners e ''reset'') \<and> ''reset'' \<in> set (map eventName evs) \<longrightarrow>
      lapTimes (fst (stopwatchDispatch e evs sw)) = []) \<and>
   (StopwatchOnReset \<in> set (eventListeners e ''reset'') \<longrightarrow>
      lapTimes (componentOf (fst (stopwatchOp OpReset (h, e, sw)))) = [])"
proof (intro conjI impI)
  assume "currentTime (state e) = 0"
  then show "recordLap (h, e, sw) = (Inl LapAtZero, (h, e, sw), [])"
    by (simp add: recordLap_def)
next
  assume nz: "currentTime (state e) \<noteq> 0"
  then show "lapTimes (componentOf (fst (snd (recordLap (h, e, sw))))) =
        lapTimes sw @
          [\<lparr>lapNumber = length (lapTimes sw) + 1,
            lapTime = currentTime (state e) -
                      (if lapTimes sw = [] then 0 else totalTime (last (lapTimes sw))),
            totalTime = currentTime (state e),
            timestamp = date h,
            formattedLapTime = engineFormatTime (currentTime (state e) -
                      (if lapTimes sw = [] then 0 else totalTime (last (lapTimes sw)))),
            formattedTotalTime = engineFormatTime (currentTime (state e))\<rparr>]"
    by (simp add: recordLap_def Let_def componentOf_def)
  from nz show "fst (recordLap (h, e, sw)) =
      Inr (last (lapTimes (componentOf (fst (snd (recordLap (h, e, sw)))))))"
    by (simp add: recordLap_def Let_def componentOf_def)
next
  show "lapTimes (fst (stopwatchDispatch e evs sw)) = lapTimes sw \<or>
        lapTimes (fst (stopwatchDispatch e evs sw)) = []"
    by (rule stopwatchDispatch_laps)
next
  assume "StopwatchOnReset \<in> set (eventListeners e ''reset'') \<and> ''reset'' \<in> set (map eventName evs)"
  then show "lapTimes (fst (stopwatchDispatch e evs sw)) = []"
    using stopwatchDispatch_reset by blast
next
  assume a: "StopwatchOnReset \<in> set (eventListeners e ''reset'')"
  from a reset_events(2) [of h e]
  have "StopwatchOnReset \<in> set (eventListeners (snd (fst (reset (h, e)))) ''reset'')"
    by (simp del: reset.simps)
  then have "lapTimes (fst (stopwatchDispatch (snd (fst (reset (h, e)))) (snd (reset (h, e))) sw)) = []"
    by (rule stopwatchDispatch_reset) (simp add: reset_events(1) del: reset.simps)
  then show "lapTimes (componentOf (fst (stopwatchOp OpReset (h, e, sw)))) = []"
    by (simp add: stopwatchOp_def componentOf_def split_beta del: reset.simps)
qed

theorem recordLap_and_reset_witness:
  "currentTime (state newTimerEngine) = 0 \<and>
   fst (recordLap (freshHost, newTimerEngine, componentOf pausedStopwatch)) = Inl LapAtZero \<and>
   currentTime (state (engineOf pausedWithLap)) \<noteq> 0 \<and>
   map lapNumber (lapTimes (componentOf (fst (snd (recordLap
      (fst pausedWithLap, engineOf pausedWithLap, componentOf pausedWithLap)))))) = [1, 2] \<and>
   map lapTime (lapTimes (componentOf (fst (snd (recordLap
      (fst pausedWithLap, engineOf pausedWithLap, componentOf pausedWithLap)))))) = [12345, 0] \<and>
   StopwatchOnReset \<in> set (eventListeners (engineOf pausedWithLap) ''reset'') \<and>
   ''reset'' \<in> set (map eventName [EvReset Stopwatch 0 False]) \<and>
   lapTimes (fst (stopwatchDispatch (engineOf pausedWithLap) [EvReset Stopwatch 0 False]
      (componentOf pausedWithLap))) = [] \<and>
   lapTimes (componentOf (fst (stopwatchOp OpReset
      (fst pausedWithLap, engineOf pausedWithLap, componentOf pausedWithLap)))) = []"
proof -
  have z: "currentTime (state newTimerEngine) = 0" by (simp add: newTimerEngine_def)
  have l: "lapTimes (componentOf pausedWithLap) \<noteq> []"
    using pausedWithLap_eval(3) by auto
  have t: "totalTime (last (lapTimes (componentOf pausedWithLap))) = 12345"
    using pausedWithLap_eval(3) l by (simp add: last_map [symmetric])
  have n: "length (lapTimes (componentOf pausedWithLap)) = 1"
    using pausedWithLap_eval(3) by (metis length_map length_Cons list.size(3) One_nat_def)
  from recordLap_and_reset [of newTimerEngine freshHost "componentOf pausedStopwatch" "[]"]
       recordLap_and_reset [of "engineOf pausedWithLap" "fst pausedWithLap"
         "componentOf pausedWithLap" "[EvReset Stopwatch 0 False]"]
       z l t n pausedWithLap_eval
  show ?thesis by (simp del: stopwatchDispatch.simps)
qed

subsection \<open>C5: what setDuration rejects and what it sets\<close>

text \<open>
  Claim C5 as stated: \<^verbatim>\<open>setDuration\<close> fails exactly when a value is negative, the
  minutes exceed 1440, the seconds are 60 or more, or the total is zero. It fails on
  1440 minutes and 1 second: none of these holds, and the call throws, from the engine's
  \<^verbatim>\<open>setTargetTime\<close>, since the total exceeds 24 hours.
\<close>

theorem setDuration_counterexample:
  "\<not> ((1440::int) < 0 \<or> (1::int) < 0 \<or> (1440::int) > 1440 \<or> (1::int) \<ge> 60 \<or>
       ((1440::int) * 60 + 1) * 1000 = 0) \<and>
   fst (setDuration 1440 1 newCountdownSys) = Inl TargetExceedsMax"
  by (simp add: setDuration_def newCountdownSys_def newCountdownTimer_def newTimerEngine_def
        freshHost_def addEventListener_def host_defs MAX_DURATION_def)

lemma setMode_countdown:
  "\<exists>h1 e1 evs. setMode ''countdown'' (h, e) = Inr ((h1, e1), evs) \<and>
      mode (state e1) = Countdown \<and> \<not> isRunning (state e1) \<and> \<not> isPaused (state e1)"
  by (auto simp: host_defs split: option.splits if_splits prod.splits)

lemma setDuration_accepted:
  assumes "\<not> durationRejected minutes seconds"
  shows "\<exists>h2 e2 ct2 evs calls.
      setDuration minutes seconds (h, e, ct) =
        (Inr ((minutes * 60 + seconds) * 1000), (h2, e2, ct2), evs, calls) \<and>
      mode (state e2) = Countdown \<and> targetTime (state e2) = (minutes * 60 + seconds) * 1000 \<and>
      currentTime (state e2) = (minutes * 60 + seconds) * 1000 \<and>
      \<not> isRunning (state e2) \<and> \<not> isPaused (state e2) \<and> warningsTriggered ct2 = []"
proof -
  from setMode_countdown [of h e] obtain h1 e1 evs1 where
    sm: "setMode ''countdown'' (h, e) = Inr ((h1, e1), evs1)"
    and m: "mode (state e1) = Countdown" "\<not> isRunning (state e1)" "\<not> isPaused (state e1)"
    by blast
  from assms have ok: "\<not> minutes < 0" "\<not> seconds < 0" "\<not> minutes > 1440" "\<not> seconds \<ge> 60"
    "(minutes * 60 + seconds) * 1000 \<noteq> 0" "\<not> (minutes * 60 + seconds) * 1000 < 0"
    "\<not> (minutes * 60 + seconds) * 1000 > MAX_DURATION"
    by (auto simp: durationRejected_def)
  show ?thesis
    using sm m ok
    by (simp add: setDuration_def Let_def split_beta del: setMode.simps)
qed

lemma setDuration_rejected:
  assumes "durationRejected minutes seconds"
  shows "isl (fst (setDuration minutes seconds (h, e, ct)))"
proof -
  from setMode_countdown [of h e] obtain h1 e1 evs1 where
    sm: "setMode ''countdown'' (h, e) = Inr ((h1, e1), evs1)"
    by blast
  show ?thesis
    using sm assms
    by (auto simp: setDuration_def durationRejected_def Let_def split_beta
             simp del: setMode.simps)
qed

text \<open>
  Claim C5 as amended. \<^verbatim>\<open>setDuration(minutes, seconds)\<close> fails exactly when a value is
  negative, the minutes exceed 1440, the seconds are 60 or more, the total is zero, or
  the total exceeds 86400000 ms. In every other case it returns the total in
  milliseconds and leaves the engine in countdown mode, stopped, with the target time and
  the current time at the total, and the set of triggered warnings empty.
\<close>

theorem setDuration_outcome:
  "(durationRejected minutes seconds \<longleftrightarrow> isl (fst (setDuration minutes seconds (h, e, ct)))) \<and>
   (\<not> durationRejected minutes seconds \<longrightarrow>
      fst (setDuration minutes seconds (h, e, ct)) = Inr ((minutes * 60 + seconds) * 1000) \<and>
      mode (state (engineOf (fst (snd (setDuration minutes seconds (h, e, ct)))))) = Countdown \<and>
      targetTime (state (engineOf (fst (snd (setDuration minutes seconds (h, e, ct)))))) =
        (minutes * 60 + seconds) * 1000 \<and>
      currentTime (state (engineOf (fst (snd (setDuration minutes seconds (h, e, ct)))))) =
        (minutes * 60 + seconds) * 1000 \<and>
      \<not> isRunning (state (engineOf (fst (snd (setDuration minutes seconds (h, e, ct)))))) \<and>
      \<not> isPaused (state (engineOf (fst (snd (setDuration minutes seconds (h, e, ct)))))) \<and>
      warningsTriggered (componentOf (fst (snd (setDuration minutes seconds (h, e, ct))))) = [])"
proof (cases "durationRejected minutes seconds")
  case True
  with setDuration_rejected [OF True, of h e ct] show ?thesis by simp
next
  case False
  from setDuration_accepted [OF False, of h e ct] False show ?thesis
    by (auto simp: engineOf_def componentOf_def)
qed

theorem setDuration_outcome_witness:
  "\<not> durationRejected 5 0 \<and>
   fst (setDuration 5 0 (freshHost, runningCountdown,
          \<lparr>completionCallbacks = [], warningCallbacks = [], milestoneCallbacks = [],
           warningsTriggered = [60000]\<rparr>)) = Inr 300000 \<and>
   targetTime (state (engineOf (fst (snd (setDuration 5 0 (freshHost, runningCountdown,
          \<lparr>completionCallbacks = [], warningCallbacks = [], milestoneCallbacks = [],
           warningsTriggered = [60000]\<rparr>)))))) = 300000 \<and>
   warningsTriggered (componentOf (fst (snd (setDuration 5 0 (freshHost, runningCountdown,
          \<lparr>completionCallbacks = [], warningCallbacks = [], milestoneCallbacks = [],
           warningsTriggered = [60000]\<rparr>))))) = [] \<and>
   durationRejected 1440 1 \<and>
   isl (fst (setDuration 1440 1 (freshHost, runningCountdown,
          \<lparr>completionCallbacks = [], warningCallbacks = [], milestoneCallbacks = [],
           warningsTriggered = [60000]\<rparr>)))"
proof -
  have a: "\<not> durationRejected 5 0" "durationRejected 1440 1"
    by (simp_all add: durationRejected_def MAX_DURATION_def)
  from setDuration_outcome [of 5 0 freshHost runningCountdown
          "\<lparr>completionCallbacks = [], warningCallbacks = [], milestoneCallbacks = [],
           warningsTriggered = [60000]\<rparr>"]
       setDuration_outcome [of 1440 1 freshHost runningCountdown
          "\<lparr>completionCallbacks = [], warningCallbacks = [], milestoneCallbacks = [],
           warningsTriggered = [60000]\<rparr>"] a
  show ?thesis by simp
qed

subsection \<open>C3: warnings of a countdown run\<close>

lemma checkWarningsFrom_find:
  "checkWarningsFrom ths t ct =
     (case find (\<lambda>th. t \<le> th \<and> th \<notin> set (warningsTriggered ct)) ths of
        None \<Rightarrow> (ct, [])
      | Some th \<Rightarrow>
          (ct\<lparr>warningsTriggered := warningsTriggered ct @ [th]\<rparr>,
           map (\<lambda>cb. WarningCall cb th t (engineFormatTime t) (th \<le> 10000))
               (warningCallbacks ct)))"
  by (induction ths) simp_all

lemma warningsOf_append: "warningsOf cb (xs @ ys) = warningsOf cb xs @ warningsOf cb ys"
proof (induction xs)
  case Nil
  then show ?case by simp
next
  case (Cons c xs)
  then show ?case by (cases c) simp_all
qed

lemma warningsOf_firing:
  "warningsOf cb (map (\<lambda>c. WarningCall c th t f u) cbs) = replicate (count_list cbs cb) th"
  by (induction cbs) simp_all

lemma warningsOf_firing_distinct:
  assumes "distinct cbs"
  shows "warningsOf cb (map (\<lambda>c. WarningCall c th t f u) cbs) = (if cb \<in> set cbs then [th] else [])"
proof -
  have "count_list cbs cb = (if cb \<in> set cbs then 1 else 0)"
    using assms by (induction cbs) auto
  then show ?thesis by (simp add: warningsOf_firing)
qed

lemma warningsOf_milestones: "warningsOf cb (checkMilestones t ct) = []"
proof -
  have "warningsOf cb (map (\<lambda>c. MilestoneCall c a b f u) cbs) = []" for a b f u cbs
    by (induction cbs) simp_all
  then show ?thesis by (simp add: checkMilestones_def Let_def)
qed

lemma warningsOf_completion: "warningsOf cb (onComplete h e ct) = []"
proof -
  have "warningsOf cb (map (\<lambda>c. CompletionCall c a b d) cbs) = []" for a b d cbs
    by (induction cbs) simp_all
  then show ?thesis by (simp add: onComplete_def)
qed

lemma find_props:
  "find P xs = Some x \<Longrightarrow> P x \<and> x \<in> set xs"
  by (induction xs) (auto split: if_splits)

lemma onTick_warnings:
  assumes "distinct (warningCallbacks ct)"
  shows "warnStep cb ct (onTick ev ct) \<and> length (warningsOf cb (snd (onTick ev ct))) \<le> 1"
proof (cases "eventCurrentTime ev")
  case None
  then show ?thesis by (simp add: onTick_def warnStep_def)
next
  case (Some t)
  show ?thesis
  proof (cases "find (\<lambda>th. t \<le> th \<and> th \<notin> set (warningsTriggered ct)) warningThresholds")
    case None
    with Some show ?thesis
      by (simp add: onTick_def checkWarnings_def checkWarningsFrom_find warnStep_def
            warningsOf_append warningsOf_milestones)
  next
    case (Some th)
    from find_props [OF Some] have "th \<notin> set (warningsTriggered ct)" "th \<in> set warningThresholds"
      by simp_all
    with Some \<open>eventCurrentTime ev = Some t\<close> assms show ?thesis
      by (auto simp: onTick_def checkWarnings_def checkWarningsFrom_find warnStep_def
            warningsOf_append warningsOf_milestones warningsOf_firing_distinct)
  qed
qed

lemma warnStep_refl: "warnStep cb ct (ct, [])"
  by (simp add: warnStep_def)

lemma warnStep_trans:
  assumes "warnStep cb ct (ct1, c1)" "warnStep cb ct1 (ct2, c2)"
  shows "warnStep cb ct (ct2, c1 @ c2)"
  using assms by (auto simp: warnStep_def warningsOf_append)

lemma warnStep_callbacks: "warnStep cb ct r \<Longrightarrow> warningCallbacks (fst r) = warningCallbacks ct"
  by (simp add: warnStep_def)

lemma countdownListeners_filter:
  "countdownListeners h e ev cbs ct =
   countdownListeners h e ev
     (filter (\<lambda>cb. cb \<in> set [CountdownOnTick, CountdownOnComplete, CountdownOnReset]) cbs) ct"
proof (induction cbs arbitrary: ct)
  case Nil
  then show ?case by simp
next
  case (Cons cb cbs)
  then show ?case by (cases cb) simp_all
qed

lemma countdownListeners_wired:
  assumes "countdownWired e"
  shows "countdownListeners h e ev (eventListeners e (eventName ev)) ct = countdownHandle h e ev ct"
proof -
  from assms have
    "filter (\<lambda>cb. cb \<in> set [CountdownOnTick, CountdownOnComplete, CountdownOnReset])
       (eventListeners e (eventName ev)) =
     (if eventName ev = ''tick'' then [CountdownOnTick]
      else if eventName ev = ''complete'' then [CountdownOnComplete]
      else if eventName ev = ''reset'' then [CountdownOnReset]
      else [])"
    unfolding countdownWired_def by blast
  then show ?thesis
    by (subst countdownListeners_filter) (simp add: countdownHandle_def split_beta)
qed

lemma countdownHandle_warnings:
  assumes "distinct (warningCallbacks ct)" "eventName ev \<noteq> ''reset''"
  shows "warnStep cb ct (countdownHandle h e ev ct) \<and>
         length (warningsOf cb (snd (countdownHandle h e ev ct))) \<le> (if isTick ev then 1 else 0)"
  using assms onTick_warnings [OF assms(1), of cb ev]
  by (simp add: countdownHandle_def isTick_def warnStep_def warningsOf_completion)

lemma countdownDispatch_warnings:
  assumes "countdownWired e" "distinct (warningCallbacks ct)"
    "''reset'' \<notin> set (map eventName evs)"
  shows "warnStep cb ct (countdownDispatch h e evs ct) \<and>
         length (warningsOf cb (snd (countdownDispatch h e evs ct))) \<le> length (filter isTick evs)"
  using assms(2,3)
proof (induction evs arbitrary: ct)
  case Nil
  then show ?case by (simp add: warnStep_refl)
next
  case (Cons ev evs)
  define r1 where "r1 = countdownHandle h e ev ct"
  define r2 where "r2 = countdownDispatch h e evs (fst r1)"
  from Cons.prems have nr: "eventName ev \<noteq> ''reset''" and rest: "''reset'' \<notin> set (map eventName evs)"
    by auto
  from countdownHandle_warnings [OF Cons.prems(1) nr, of cb h e]
  have s1: "warnStep cb ct (fst r1, snd r1)"
    and l1: "length (warningsOf cb (snd r1)) \<le> (if isTick ev then 1 else 0)"
    by (simp_all add: r1_def)
  from warnStep_callbacks [OF s1] Cons.prems(1) have d1: "distinct (warningCallbacks (fst r1))"
    by simp
  from Cons.IH [OF d1 rest]
  have s2: "warnStep cb (fst r1) (fst r2, snd r2)"
    and l2: "length (warningsOf cb (snd r2)) \<le> length (filter isTick evs)"
    by (simp_all add: r2_def)
  have eq: "countdownDispatch h e (ev # evs) ct = (fst r2, snd r1 @ snd r2)"
    by (simp add: countdownListeners_wired [OF assms(1)] r1_def r2_def split_beta)
  from warnStep_trans [OF s1 s2] l1 l2 show ?case
    by (auto simp: eq warningsOf_append simp del: countdownDispatch.simps split: if_splits)
qed

lemma inRun_events:
  assumes "inRun x"
  shows "''reset'' \<notin> set (map eventName (snd (applyOp x w))) \<and>
         length (filter isTick (snd (applyOp x w))) \<le> 1 \<and>
         eventListeners (snd (fst (applyOp x w))) = eventListeners (snd w)"
  using assms
  by (cases w; cases x)
     (auto simp: host_defs isTick_def split: option.splits prod.splits list.splits)

lemma countdownOp_warnings:
  assumes "countdownWired e" "distinct (warningCallbacks ct)" "inRun x"
  shows "warnStep cb ct (componentOf (fst (countdownOp x (h, e, ct))),
                         snd (snd (countdownOp x (h, e, ct)))) \<and>
         length (warningsOf cb (snd (snd (countdownOp x (h, e, ct))))) \<le> 1 \<and>
         countdownWired (engineOf (fst (countdownOp x (h, e, ct))))"
proof -
  define w1 where "w1 = fst (applyOp x (h, e))"
  define evs where "evs = snd (applyOp x (h, e))"
  from inRun_events [OF assms(3), of "(h, e)"]
  have nr: "''reset'' \<notin> set (map eventName evs)" and tk: "length (filter isTick evs) \<le> 1"
    and li: "eventListeners (snd w1) = eventListeners e"
    by (simp_all add: w1_def evs_def)
  from li assms(1) have wired: "countdownWired (snd w1)" by (simp add: countdownWired_def)
  have op: "countdownOp x (h, e, ct) =
      ((fst w1, snd w1, fst (countdownDispatch (fst w1) (snd w1) evs ct)), evs,
       snd (countdownDispatch (fst w1) (snd w1) evs ct))"
    by (simp add: countdownOp_def w1_def evs_def split_beta)
  from countdownDispatch_warnings [OF wired assms(2) nr, of cb "fst w1"] tk wired
  show ?thesis by (simp add: op componentOf_def engineOf_def)
qed

lemma countdownOps_warnings:
  assumes "countdownWired e" "distinct (warningCallbacks ct)" "\<forall>x \<in> set ops. inRun x"
  shows "warnStep cb ct (componentOf (fst (countdownOps ops (h, e, ct))),
                         snd (snd (countdownOps ops (h, e, ct))))"
  using assms
proof (induction ops arbitrary: h e ct)
  case Nil
  then show ?case by (simp add: warnStep_refl componentOf_def)
next
  case (Cons x ops)
  obtain h1 e1 ct1 evs1 calls1 where op: "countdownOp x (h, e, ct) = ((h1, e1, ct1), evs1, calls1)"
    by (metis surj_pair)
  from Cons.prems have x: "inRun x" and rest: "\<forall>x \<in> set ops. inRun x" by simp_all
  from countdownOp_warnings [OF Cons.prems(1,2) x, of cb h] op
  have s1: "warnStep cb ct (ct1, calls1)" and w1: "countdownWired e1"
    by (simp_all add: componentOf_def engineOf_def)
  from warnStep_callbacks [OF s1] Cons.prems(2) have d1: "distinct (warningCallbacks ct1)" by simp
  from Cons.IH [OF w1 d1 rest, of h1]
  have s2: "warnStep cb ct1 (componentOf (fst (countdownOps ops (h1, e1, ct1))),
                             snd (snd (countdownOps ops (h1, e1, ct1))))" .
  from warnStep_trans [OF s1 s2] show ?case
    by (simp add: op split_beta componentOf_def)
qed
text \<open>
  Claim C3. \<^verbatim>\<open>checkWarnings\<close> fires for the first threshold of the descending list
  that the remaining time has reached and that has not fired, and for no other: it marks
  the threshold as fired and calls every warning callback once with the threshold, the
  remaining time, its formatted form and \<open>isUrgent\<close>, which is true exactly when the
  threshold is at most 10000. A tick event runs it once. So every operation within a run
  warns a callback at most once, and over any run (start, pause, resume, updates, frames
  and time, in any order and number, without a reset) the thresholds a callback is
  warned of are distinct thresholds of the list that had not fired before the run.
\<close>

theorem warnings_fire_once:
  assumes "countdownWired e" and "distinct (warningCallbacks ct)"
    and "list_all inRun ops" and "inRun x"
  shows "checkWarnings t ct =
           (case find (\<lambda>th. t \<le> th \<and> th \<notin> set (warningsTriggered ct)) warningThresholds of
              None \<Rightarrow> (ct, [])
            | Some th \<Rightarrow>
                (ct\<lparr>warningsTriggered := warningsTriggered ct @ [th]\<rparr>,
                 map (\<lambda>cb. WarningCall cb th t (engineFormatTime t) (th \<le> 10000))
                     (warningCallbacks ct))) \<and>
         countdownListeners h e (EvTick m t tt r p) (eventListeners e ''tick'') ct =
           (fst (checkWarnings t ct),
            snd (checkWarnings t ct) @ checkMilestones t (fst (checkWarnings t ct))) \<and>
         length (warningsOf cb (snd (snd (countdownOp x (h, e, ct))))) \<le> 1 \<and>
         distinct (warningsOf cb (snd (snd (countdownOps ops (h, e, ct))))) \<and>
         set (warningsOf cb (snd (snd (countdownOps ops (h, e, ct))))) \<subseteq>
           set warningThresholds - set (warningsTriggered ct)"
proof -
  have a: "checkWarnings t ct =
           (case find (\<lambda>th. t \<le> th \<and> th \<notin> set (warningsTriggered ct)) warningThresholds of
              None \<Rightarrow> (ct, [])
            | Some th \<Rightarrow>
                (ct\<lparr>warningsTriggered := warningsTriggered ct @ [th]\<rparr>,
                 map (\<lambda>cb. WarningCall cb th t (engineFormatTime t) (th \<le> 10000))
                     (warningCallbacks ct)))"
    by (simp add: checkWarnings_def checkWarningsFrom_find)
  have b: "countdownListeners h e (EvTick m t tt r p) (eventListeners e ''tick'') ct =
           (fst (checkWarnings t ct),
            snd (checkWarnings t ct) @ checkMilestones t (fst (checkWarnings t ct)))"
    using countdownListeners_wired [OF assms(1), of h "EvTick m t tt r p" ct]
    by (simp add: countdownHandle_def onTick_def split_beta)
  have c: "length (warningsOf cb (snd (snd (countdownOp x (h, e, ct))))) \<le> 1"
    using countdownOp_warnings [OF assms(1,2,4), of cb h] by simp
  have ops: "\<forall>x \<in> set ops. inRun x" using assms(3) by (simp add: list_all_iff)
  from countdownOps_warnings [OF assms(1,2) ops, of cb h]
  have d: "distinct (warningsOf cb (snd (snd (countdownOps ops (h, e, ct)))))"
    and e: "set (warningsOf cb (snd (snd (countdownOps ops (h, e, ct))))) \<subseteq>
           set warningThresholds - set (warningsTriggered ct)"
    by (auto simp: warnStep_def)
  from a b c d e show ?thesis by blast
qed

lemma warnSys_eval:
  "warnSys =
     (freshHost,
      \<lparr>state = \<lparr>mode = Countdown, isRunning = False, isPaused = False, currentTime = 5000,
               targetTime = 5000, startTime = 0\<rparr>,
       animationFrameId = None, lastUpdateTime = 0,
       eventListeners = (\<lambda>name. [])(''tick'' := [CountdownOnTick],
          ''complete'' := [CountdownOnComplete], ''reset'' := [CountdownOnReset])\<rparr>,
      \<lparr>completionCallbacks = [], warningCallbacks = [7], milestoneCallbacks = [],
       warningsTriggered = []\<rparr>)"
  by (simp add: warnSys_def setDuration_def newCountdownTimer_def newTimerEngine_def
        freshHost_def addEventListener_def host_defs MAX_DURATION_def)

theorem warnings_fire_once_witness:
  "countdownWired (engineOf warnSys) \<and> distinct (warningCallbacks (componentOf warnSys)) \<and>
   list_all inRun warnOps \<and> inRun OpFrame \<and>
   warningsTriggered (componentOf warnSys) = [] \<and>
   warningsOf 7 (snd (snd (countdownOps warnOps
      (fst warnSys, engineOf warnSys, componentOf warnSys)))) = [60000, 30000] \<and>
   distinct (warningsOf 7 (snd (snd (countdownOps warnOps
      (fst warnSys, engineOf warnSys, componentOf warnSys)))))"
proof -
  have w: "countdownWired (engineOf warnSys)"
    by (auto simp: warnSys_eval engineOf_def countdownWired_def)
  have d: "distinct (warningCallbacks (componentOf warnSys))"
    "warningsTriggered (componentOf warnSys) = []"
    by (simp_all add: warnSys_eval componentOf_def)
  have r: "list_all inRun warnOps" "inRun OpFrame" by (simp_all add: warnOps_def)
  have v: "warningsOf 7 (snd (snd (countdownOps warnOps
      (fst warnSys, engineOf warnSys, componentOf warnSys)))) = [60000, 30000]"
    by (simp add: warnSys_eval warnOps_def engineOf_def componentOf_def freshHost_def
          countdownOp_def host_defs UPDATE_INTERVAL_def onTick_def checkWarnings_def
          warningThresholds_def checkMilestones_def isAtMilestone_def LEBRON_MILESTONES_def
          getProgress_def)
  from warnings_fire_once [OF w d(1) r, where cb = 7 and h = "fst warnSys"] w d r v
  show ?thesis by simp
qed

end
